theory Spec2Isabelle
  imports Main "HOL-Library.Word"
begin

section \<open>JavaScript values as the handlers see them\<close>

text \<open>
  The server is the last version of the Express application (the second document of
  \<^verbatim>\<open>src/unnamed/part_000\<close>; \<^verbatim>\<open>src/index.js\<close> is the same text without the two
  therapist routes). A JavaScript string is a sequence of UTF-16 code units, so the model
  uses lists of 16-bit words; \<open>str\<close> embeds the ASCII literals of the source.
\<close>

type_synonym jsstring = "16 word list"

definition codeUnit :: "char \<Rightarrow> 16 word" where
  "codeUnit c = of_nat (of_char c)"

definition str :: "string \<Rightarrow> jsstring" where
  "str s = map codeUnit s"

text \<open>
  The values of a parsed JSON body, and \<open>undefined\<close>. The handlers observe a number only
  through \<open>ToBoolean\<close> and \<open>ToString\<close>, so a number is represented by its
  \<open>Number::toString\<close> text (\<open>0\<close> for both zeros, \<open>NaN\<close> for NaN). An object is the
  list of its own properties.
\<close>

datatype jsval =
    JUndefined
  | JNull
  | JBool bool
  | JNum jsstring
  | JStr jsstring
  | JArr "jsval list"
  | JObj "(jsstring \<times> jsval) list"

type_synonym props = "(jsstring \<times> jsval) list"

text \<open>\<open>ToBoolean\<close>: what \<^verbatim>\<open>!x\<close> and \<^verbatim>\<open>if (x)\<close> test.\<close>

fun truthy :: "jsval \<Rightarrow> bool" where
  "truthy JUndefined = False"
| "truthy JNull = False"
| "truthy (JBool b) = b"
| "truthy (JNum t) = (t \<noteq> str ''0'' \<and> t \<noteq> str ''NaN'')"
| "truthy (JStr s) = (s \<noteq> [])"
| "truthy (JArr xs) = True"
| "truthy (JObj kvs) = True"

text \<open>
  Reading a property whose name no built-in prototype defines (\<open>sentence\<close>, \<open>userId\<close>,
  \<open>scenario\<close>, \<open>message\<close>, \<open>response\<close>, \<open>content\<close>): the own property, or \<open>undefined\<close>.
\<close>

definition getProp :: "props \<Rightarrow> jsstring \<Rightarrow> jsval" where
  "getProp kvs k = (case map_of kvs k of Some v \<Rightarrow> v | None \<Rightarrow> JUndefined)"

fun getMember :: "jsval \<Rightarrow> jsstring \<Rightarrow> jsval" where
  "getMember (JObj kvs) k = getProp kvs k"
| "getMember v k = JUndefined"

text \<open>
  A thrown error is represented by its \<open>message\<close>, the only thing a \<^verbatim>\<open>catch\<close> block of
  the source reads: \<open>Inl\<close> is a throw, \<open>Inr\<close> a normal result.
\<close>

fun sequence :: "('e + 'a) list \<Rightarrow> 'e + 'a list" where
  "sequence [] = Inr []"
| "sequence (Inl e # rs) = Inl e"
| "sequence (Inr x # rs) = (case sequence rs of Inl e \<Rightarrow> Inl e | Inr xs \<Rightarrow> Inr (x # xs))"

fun join :: "jsstring list \<Rightarrow> jsstring" where
  "join [] = []"
| "join [x] = x"
| "join (x # y # ys) = x @ str '','' @ join (y # ys)"

definition cannotConvert :: jsstring where
  "cannotConvert = str ''Cannot convert object to primitive value''"

text \<open>
  \<open>ToString\<close>, which a template literal and a computed property key apply. An array joins
  its elements with commas (\<open>null\<close> and \<open>undefined\<close> elements give the empty string); an
  object answers \<open>[object Object]\<close> through \<open>Object.prototype.toString\<close>, unless an own
  property named \<open>toString\<close> shadows that method: a JSON value is never callable, and
  \<open>valueOf\<close> gives no primitive, so the conversion throws a TypeError.
\<close>

fun ToString :: "jsval \<Rightarrow> jsstring + jsstring" where
  "ToString JUndefined = Inr (str ''undefined'')"
| "ToString JNull = Inr (str ''null'')"
| "ToString (JBool b) = Inr (if b then str ''true'' else str ''false'')"
| "ToString (JNum t) = Inr t"
| "ToString (JStr s) = Inr s"
| "ToString (JArr xs) =
     (case sequence (map (\<lambda>x. if x = JUndefined \<or> x = JNull then Inr [] else ToString x) xs) of
        Inl e \<Rightarrow> Inl e
      | Inr ss \<Rightarrow> Inr (join ss))"
| "ToString (JObj kvs) =
     (if str ''toString'' \<in> fst ` set kvs then Inl cannotConvert
      else Inr (str ''[object Object]''))"

text \<open>\<open>String.prototype.trim\<close>: the WhiteSpace and LineTerminator code units.\<close>

definition isWhiteSpace :: "16 word \<Rightarrow> bool" where
  "isWhiteSpace c =
     (c \<in> {0x9, 0xA, 0xB, 0xC, 0xD, 0x20, 0xA0, 0x1680, 0x2028, 0x2029, 0x202F, 0x205F,
           0x3000, 0xFEFF}
      \<or> (0x2000 \<le> c \<and> c \<le> 0x200A))"

definition trim :: "jsstring \<Rightarrow> jsstring" where
  "trim s = rev (dropWhile isWhiteSpace (rev (dropWhile isWhiteSpace s)))"

section \<open>The pattern \<^verbatim>\<open>/\{.*\}/s\<close>\<close>

text \<open>
  \<^verbatim>\<open>responseText.match(/\{.*\}/s)\<close> tries the start positions from the left. At a \<open>{\<close>
  the greedy \<open>.*\<close> (the flag \<open>s\<close> lets the dot match every code unit) takes as much as it
  can and gives back until a \<open>}\<close> follows: \<open>greedy_close\<close> is that longest continuation.
  When no continuation matches, the search goes on at the next position.
\<close>

definition lbrace :: "16 word" where
  "lbrace = 0x7B"

definition rbrace :: "16 word" where
  "rbrace = 0x7D"

fun greedy_close :: "jsstring \<Rightarrow> jsstring option" where
  "greedy_close [] = None"
| "greedy_close (c # cs) =
     (case greedy_close cs of
        Some m \<Rightarrow> Some (c # m)
      | None \<Rightarrow> if c = rbrace then Some [c] else None)"

fun regex_match :: "jsstring \<Rightarrow> jsstring option" where
  "regex_match [] = None"
| "regex_match (c # cs) =
     (if c = lbrace
      then (case greedy_close cs of
              Some m \<Rightarrow> Some (c # m)
            | None \<Rightarrow> regex_match cs)
      else regex_match cs)"

text \<open>
  The reading of the specification: the substring from the first \<open>{\<close> to the last \<open>}\<close>
  of the reply, by position.
\<close>

definition first_index :: "16 word \<Rightarrow> jsstring \<Rightarrow> nat option" where
  "first_index c s =
     (if c \<in> set s then Some (length (takeWhile (\<lambda>x. x \<noteq> c) s)) else None)"

definition last_index :: "16 word \<Rightarrow> jsstring \<Rightarrow> nat option" where
  "last_index c s =
     (if c \<in> set s then Some (length s - Suc (length (takeWhile (\<lambda>x. x \<noteq> c) (rev s))))
      else None)"

definition substring :: "jsstring \<Rightarrow> nat \<Rightarrow> nat \<Rightarrow> jsstring" where
  "substring s i j = take (j - i) (drop i s)"

definition first_to_last_brace :: "jsstring \<Rightarrow> jsstring option" where
  "first_to_last_brace s =
     (case first_index lbrace s of
        None \<Rightarrow> None
      | Some i \<Rightarrow>
          (case last_index rbrace s of
             None \<Rightarrow> None
           | Some j \<Rightarrow> if i < j then Some (substring s i (Suc j)) else None))"

section \<open>The server state\<close>

text \<open>
  \<^verbatim>\<open>conversationHistory\<close> and \<^verbatim>\<open>therapistHistory\<close> are plain objects used as maps from
  a user identifier to an array of entries. A plain object inherits from
  \<open>Object.prototype\<close>: reading a key it does not own finds the inherited member when the key
  is one of \<open>objectPrototypeKeys\<close> (a function, or the prototype itself for \<open>__proto__\<close>:
  truthy, and without a \<open>push\<close> or \<open>map\<close> method), and \<open>undefined\<close> otherwise.
\<close>

type_synonym store = "jsstring \<rightharpoonup> jsval list"

definition objectPrototypeKeys :: "jsstring list" where
  "objectPrototypeKeys =
     map str [''constructor'', ''__defineGetter__'', ''__defineSetter__'', ''hasOwnProperty'',
       ''__lookupGetter__'', ''__lookupSetter__'', ''isPrototypeOf'', ''propertyIsEnumerable'',
       ''toString'', ''valueOf'', ''__proto__'', ''toLocaleString'']"

datatype slot = Absent | Inherited | Own "jsval list"

definition getSlot :: "store \<Rightarrow> jsstring \<Rightarrow> slot" where
  "getSlot h k =
     (case h k of
        Some xs \<Rightarrow> Own xs
      | None \<Rightarrow> if k \<in> set objectPrototypeKeys then Inherited else Absent)"

text \<open>\<^verbatim>\<open>if (!h[userId]) h[userId] = [];\<close>\<close>

definition initHistory :: "store \<Rightarrow> jsstring \<Rightarrow> store" where
  "initHistory h k = (if getSlot h k = Absent then h(k \<mapsto> []) else h)"

text \<open>
  \<^verbatim>\<open>h[userId].push(entry)\<close> reads the member at the moment of the call. When what it reads
  is not an array the call throws a TypeError (\<open>Inl\<close>, with what was read). The message is
  worded as V8, the engine of Node, words it: for \<open>undefined\<close> it names the property that
  was read, for an inherited member it names the expression that was called.
\<close>

definition push :: "store \<Rightarrow> jsstring \<Rightarrow> jsval \<Rightarrow> slot + store" where
  "push h k e =
     (case getSlot h k of
        Own xs \<Rightarrow> Inr (h(k \<mapsto> xs @ [e]))
      | Absent \<Rightarrow> Inl Absent
      | Inherited \<Rightarrow> Inl Inherited)"

definition memberTypeError :: "string \<Rightarrow> string \<Rightarrow> slot \<Rightarrow> jsstring" where
  "memberTypeError storeName member sl =
     (case sl of
        Absent \<Rightarrow>
          str (''Cannot read properties of undefined (reading '' @ [CHR 0x27] @ member
                 @ [CHR 0x27] @ '')'')
      | Inherited \<Rightarrow> str (storeName @ ''[userId].'' @ member @ '' is not a function'')
      | Own xs \<Rightarrow> str (storeName @ ''[userId].'' @ member @ '' is not a function''))"

text \<open>
  The external model is a black box. \<open>modelCalls\<close> counts the calls of
  \<^verbatim>\<open>model.generateContent\<close> made so far; \<open>generateContent\<close> makes the next call and
  gives its number. The handler then waits (\<^verbatim>\<open>await\<close>); other requests are served in
  the meantime. The environment is a function from the number of a call to what the call
  does when it settles: it throws an error with a message, or it returns a text
  (\<^verbatim>\<open>result.response.text()\<close>; the handler touches no store between its two
  \<^verbatim>\<open>await\<close>s, which are one waiting period here). The prompt is a template literal whose
  text no handler reads back; the model keeps of it only the conversions \<open>ToString\<close> that
  building it performs, which can throw.
\<close>

datatype reply = Fails jsstring | Text jsstring

record server =
  conversationHistory :: store
  therapistHistory :: store
  modelCalls :: nat

definition generateContent :: "server \<Rightarrow> nat \<times> server" where
  "generateContent s = (modelCalls s, s\<lparr>modelCalls := Suc (modelCalls s)\<rparr>)"

section \<open>Responses\<close>

record response =
  status :: nat
  body :: jsval

text \<open>
  A handler either sends a response or throws outside its \<^verbatim>\<open>try\<close> block; what Express
  does with such an exception is not part of the repository.
\<close>

datatype outcome = Responded response | Uncaught jsstring

definition errorOnly :: "nat \<Rightarrow> string \<Rightarrow> response" where
  "errorOnly code msg = \<lparr>status = code, body = JObj [(str ''error'', JStr (str msg))]\<rparr>"

definition aiModelError :: "jsstring \<Rightarrow> response" where
  "aiModelError msg =
     \<lparr>status = 500,
      body = JObj [(str ''error'', JStr (str ''AI model error'')), (str ''details'', JStr msg)]\<rparr>"

definition ok :: "props \<Rightarrow> response" where
  "ok kvs = \<lparr>status = 200, body = JObj kvs\<rparr>"

text \<open>
  A handler that calls the model runs in two parts. The first part runs from the arrival of
  the request to the \<^verbatim>\<open>await\<close>: it ends the request (\<open>Done\<close>) or leaves it waiting for
  the model (\<open>Awaiting\<close>, with what the second part needs). The second part runs when the
  call has settled, on the state the server has by then.
\<close>

datatype 'a progress = Done outcome | Awaiting 'a

text \<open>
  \<^verbatim>\<open>try { ... } catch (error) { res.status(500).json({error, details: error.message}) }\<close>:
  \<open>suspend\<close> for the statements of the block before the \<^verbatim>\<open>await\<close>, \<open>catch\<close> for
  those after it.
\<close>

definition suspend :: "(jsstring + 'a) \<times> server \<Rightarrow> 'a progress \<times> server" where
  "suspend r =
     (case r of
        (Inl e, s) \<Rightarrow> (Done (Responded (aiModelError e)), s)
      | (Inr a, s) \<Rightarrow> (Awaiting a, s))"

definition catch :: "(jsstring + response) \<times> server \<Rightarrow> outcome \<times> server" where
  "catch r =
     (case r of
        (Inl e, s) \<Rightarrow> (Responded (aiModelError e), s)
      | (Inr res, s) \<Rightarrow> (Responded res, s))"

section \<open>The routes\<close>

text \<open>
  A handler takes \<^verbatim>\<open>req.body\<close>, the object that \<^verbatim>\<open>express.json()\<close> parsed (given by its
  properties), and the server state; it returns what it sent and the new state. For each
  route that calls the model, \<open>_start\<close> is the part before the \<^verbatim>\<open>await\<close> and \<open>_resume\<close>
  the part after it; the function named after the route serves one request alone: the
  second part follows the first with no other request in between.
\<close>

subsection \<open>\<^verbatim>\<open>POST /correct-grammar\<close> and \<^verbatim>\<open>POST /auto-complete\<close>\<close>

definition sentence_prompt :: "jsval \<Rightarrow> server \<Rightarrow> (jsstring + nat) \<times> server" where
  "sentence_prompt sentence s =
     (case ToString sentence of
        Inl e \<Rightarrow> (Inl e, s)
      | Inr t \<Rightarrow> (case generateContent s of (n, s1) \<Rightarrow> (Inr n, s1)))"

definition sentence_start :: "props \<Rightarrow> server \<Rightarrow> nat progress \<times> server" where
  "sentence_start reqBody s =
     (let sentence = getProp reqBody (str ''sentence'') in
      if \<not> truthy sentence then (Done (Responded (errorOnly 400 ''Sentence is required'')), s)
      else suspend (sentence_prompt sentence s))"

definition sentence_resume :: "string \<Rightarrow> reply \<Rightarrow> server \<Rightarrow> (jsstring + response) \<times> server" where
  "sentence_resume resultKey reply s =
     (case reply of
        Fails e \<Rightarrow> (Inl e, s)
      | Text responseText \<Rightarrow> (Inr (ok [(str resultKey, JStr responseText)]), s))"

definition correct_grammar :: "(nat \<Rightarrow> reply) \<Rightarrow> props \<Rightarrow> server \<Rightarrow> outcome \<times> server" where
  "correct_grammar model reqBody s =
     (case sentence_start reqBody s of
        (Done out, s1) \<Rightarrow> (out, s1)
      | (Awaiting n, s1) \<Rightarrow> catch (sentence_resume ''correctedSentence'' (model n) s1))"

definition auto_complete :: "(nat \<Rightarrow> reply) \<Rightarrow> props \<Rightarrow> server \<Rightarrow> outcome \<times> server" where
  "auto_complete model reqBody s =
     (case sentence_start reqBody s of
        (Done out, s1) \<Rightarrow> (out, s1)
      | (Awaiting n, s1) \<Rightarrow> catch (sentence_resume ''completedSentence'' (model n) s1))"

subsection \<open>\<^verbatim>\<open>POST /roleplay\<close>\<close>

text \<open>
  \<open>JSON.parse\<close> belongs to the runtime and is a parameter: it throws a SyntaxError with a
  message (\<open>Inl\<close>) or returns the value. Its argument here begins with \<open>{\<close>, so a value it
  returns is an object, given by its properties.
\<close>

type_synonym parser = "jsstring \<Rightarrow> jsstring + props"

definition userMessage :: "jsval \<Rightarrow> jsval" where
  "userMessage message = JObj [(str ''role'', JStr (str ''user'')), (str ''message'', message)]"

definition aiMessage :: "jsval \<Rightarrow> jsval" where
  "aiMessage response = JObj [(str ''role'', JStr (str ''ai'')), (str ''message'', response)]"

definition invalidJSON :: jsstring where
  "invalidJSON = str ''Invalid JSON response from AI''"

definition roleplay_prompt :: "jsval \<Rightarrow> jsval \<Rightarrow> server \<Rightarrow> (jsstring + nat) \<times> server" where
  "roleplay_prompt scenario message s =
     (case ToString scenario of
        Inl e \<Rightarrow> (Inl e, s)
      | Inr t1 \<Rightarrow>
     (case ToString message of
        Inl e \<Rightarrow> (Inl e, s)
      | Inr t2 \<Rightarrow> (case generateContent s of (n, s1) \<Rightarrow> (Inr n, s1))))"

definition roleplay_start :: "props \<Rightarrow> server \<Rightarrow> (jsstring \<times> nat) progress \<times> server" where
  "roleplay_start reqBody s =
     (let userId = getProp reqBody (str ''userId'');
          scenario = getProp reqBody (str ''scenario'');
          message = getProp reqBody (str ''message'')
      in
      if \<not> truthy userId \<or> \<not> truthy scenario \<or> \<not> truthy message
      then (Done (Responded (errorOnly 400 ''User ID, scenario, and message are required'')), s)
      else
        (case ToString userId of
           Inl e \<Rightarrow> (Done (Uncaught e), s)
         | Inr key \<Rightarrow>
             (case push (initHistory (conversationHistory s) key) key (userMessage message) of
                Inl sl \<Rightarrow> (Done (Uncaught (memberTypeError ''conversationHistory'' ''push'' sl)), s)
              | Inr h \<Rightarrow>
                  (case suspend (roleplay_prompt scenario message (s\<lparr>conversationHistory := h\<rparr>)) of
                     (Done out, s1) \<Rightarrow> (Done out, s1)
                   | (Awaiting n, s1) \<Rightarrow> (Awaiting (key, n), s1)))))"

text \<open>
  After the \<^verbatim>\<open>await\<close>: the store is read again, as it is when the call has settled.
\<close>

definition roleplay_resume ::
  "parser \<Rightarrow> jsstring \<Rightarrow> reply \<Rightarrow> server \<Rightarrow> (jsstring + response) \<times> server" where
  "roleplay_resume parse key reply s =
     (case reply of
        Fails e \<Rightarrow> (Inl e, s)
      | Text responseText \<Rightarrow>
     (case regex_match responseText of
        None \<Rightarrow> (Inl invalidJSON, s)
      | Some jsonMatch \<Rightarrow>
     (case parse jsonMatch of
        Inl e \<Rightarrow> (Inl e, s)
      | Inr aiResponse \<Rightarrow>
     (case push (conversationHistory s) key (aiMessage (getProp aiResponse (str ''response''))) of
        Inl sl \<Rightarrow> (Inl (memberTypeError ''conversationHistory'' ''push'' sl), s)
      | Inr h \<Rightarrow>
          (Inr (ok [(str ''roleplayResponse'', JObj aiResponse)]),
           s\<lparr>conversationHistory := h\<rparr>)))))"

definition roleplay :: "parser \<Rightarrow> (nat \<Rightarrow> reply) \<Rightarrow> props \<Rightarrow> server \<Rightarrow> outcome \<times> server" where
  "roleplay parse model reqBody s =
     (case roleplay_start reqBody s of
        (Done out, s1) \<Rightarrow> (out, s1)
      | (Awaiting (key, n), s1) \<Rightarrow> catch (roleplay_resume parse key (model n) s1))"

subsection \<open>\<^verbatim>\<open>POST /reset-history\<close>\<close>

text \<open>The reset handlers have no \<^verbatim>\<open>await\<close>: they run in one piece.\<close>

definition reset_history :: "props \<Rightarrow> server \<Rightarrow> outcome \<times> server" where
  "reset_history reqBody s =
     (let userId = getProp reqBody (str ''userId'') in
      if truthy userId then
        (case ToString userId of
           Inl e \<Rightarrow> (Uncaught e, s)
         | Inr key \<Rightarrow>
             if getSlot (conversationHistory s) key \<noteq> Absent
             then (Responded (ok [(str ''message'', JStr (str ''History reset for user: '' @ key))]),
                   s\<lparr>conversationHistory := (conversationHistory s)(key := None)\<rparr>)
             else (Responded (errorOnly 404 ''User not found''), s))
      else (Responded (ok [(str ''message'', JStr (str ''All conversation histories reset''))]),
            s\<lparr>conversationHistory := Map.empty\<rparr>))"

subsection \<open>\<^verbatim>\<open>POST /therapist-chat\<close>\<close>

definition userContent :: "jsval \<Rightarrow> jsval" where
  "userContent message = JObj [(str ''role'', JStr (str ''user'')), (str ''content'', message)]"

definition aiContent :: "jsstring \<Rightarrow> jsval" where
  "aiContent aiResponse = JObj [(str ''role'', JStr (str ''ai'')), (str ''content'', JStr aiResponse)]"

definition therapist_prompt :: "jsstring \<Rightarrow> jsval \<Rightarrow> server \<Rightarrow> (jsstring + nat) \<times> server" where
  "therapist_prompt key message s =
     (case getSlot (therapistHistory s) key of
        Own entries \<Rightarrow>
     (case sequence (map (\<lambda>msg. ToString (getMember msg (str ''content''))) entries) of
        Inl e \<Rightarrow> (Inl e, s)
      | Inr historyStr \<Rightarrow>
     (case ToString message of
        Inl e \<Rightarrow> (Inl e, s)
      | Inr t \<Rightarrow> (case generateContent s of (n, s1) \<Rightarrow> (Inr n, s1))))
      | Absent \<Rightarrow> (Inl (memberTypeError ''therapistHistory'' ''map'' Absent), s)
      | Inherited \<Rightarrow> (Inl (memberTypeError ''therapistHistory'' ''map'' Inherited), s))"

definition therapist_start :: "props \<Rightarrow> server \<Rightarrow> (jsstring \<times> nat) progress \<times> server" where
  "therapist_start reqBody s =
     (let userId = getProp reqBody (str ''userId'');
          message = getProp reqBody (str ''message'')
      in
      if \<not> truthy userId \<or> \<not> truthy message
      then (Done (Responded (errorOnly 400 ''User ID and message are required'')), s)
      else
        (case ToString userId of
           Inl e \<Rightarrow> (Done (Uncaught e), s)
         | Inr key \<Rightarrow>
             (case push (initHistory (therapistHistory s) key) key (userContent message) of
                Inl sl \<Rightarrow> (Done (Uncaught (memberTypeError ''therapistHistory'' ''push'' sl)), s)
              | Inr h \<Rightarrow>
                  (case suspend (therapist_prompt key message (s\<lparr>therapistHistory := h\<rparr>)) of
                     (Done out, s1) \<Rightarrow> (Done out, s1)
                   | (Awaiting n, s1) \<Rightarrow> (Awaiting (key, n), s1)))))"

definition therapist_resume :: "jsstring \<Rightarrow> reply \<Rightarrow> server \<Rightarrow> (jsstring + response) \<times> server" where
  "therapist_resume key reply s =
     (case reply of
        Fails e \<Rightarrow> (Inl e, s)
      | Text responseText \<Rightarrow>
     (let aiResponse = trim responseText in
      case push (therapistHistory s) key (aiContent aiResponse) of
        Inl sl \<Rightarrow> (Inl (memberTypeError ''therapistHistory'' ''push'' sl), s)
      | Inr h \<Rightarrow>
          (Inr (ok [(str ''therapistResponse'', JStr aiResponse)]),
           s\<lparr>therapistHistory := h\<rparr>)))"

definition therapist_chat :: "(nat \<Rightarrow> reply) \<Rightarrow> props \<Rightarrow> server \<Rightarrow> outcome \<times> server" where
  "therapist_chat model reqBody s =
     (case therapist_start reqBody s of
        (Done out, s1) \<Rightarrow> (out, s1)
      | (Awaiting (key, n), s1) \<Rightarrow> catch (therapist_resume key (model n) s1))"

subsection \<open>\<^verbatim>\<open>POST /therapist-reset\<close>\<close>

definition therapist_reset :: "props \<Rightarrow> server \<Rightarrow> outcome \<times> server" where
  "therapist_reset reqBody s =
     (let userId = getProp reqBody (str ''userId'') in
      if truthy userId then
        (case ToString userId of
           Inl e \<Rightarrow> (Uncaught e, s)
         | Inr key \<Rightarrow>
             (Responded (ok [(str ''message'', JStr (str ''Therapist chat history reset for '' @ key))]),
              s\<lparr>therapistHistory := (therapistHistory s)(key := None)\<rparr>))
      else (Responded (ok [(str ''message'', JStr (str ''All therapist chat histories reset''))]),
            s\<lparr>therapistHistory := Map.empty\<rparr>))"

subsection \<open>The router, for a request served alone\<close>

datatype route = CorrectGrammar | AutoComplete | Roleplay | ResetHistory | TherapistChat | TherapistReset

fun dispatch :: "parser \<Rightarrow> (nat \<Rightarrow> reply) \<Rightarrow> route \<Rightarrow> props \<Rightarrow> server \<Rightarrow> outcome \<times> server" where
  "dispatch parse model CorrectGrammar reqBody s = correct_grammar model reqBody s"
| "dispatch parse model AutoComplete reqBody s = auto_complete model reqBody s"
| "dispatch parse model Roleplay reqBody s = roleplay parse model reqBody s"
| "dispatch parse model ResetHistory reqBody s = reset_history reqBody s"
| "dispatch parse model TherapistChat reqBody s = therapist_chat model reqBody s"
| "dispatch parse model TherapistReset reqBody s = therapist_reset reqBody s"

subsection \<open>Requests in flight together\<close>

text \<open>
  Node runs one piece of JavaScript at a time, and a handler gives way only at its
  \<^verbatim>\<open>await\<close>. The server as a whole therefore moves by events: a request arrives and its
  handler runs up to the \<^verbatim>\<open>await\<close> or to its response; or the model call of one of the
  waiting requests settles and the rest of that handler runs. The calls settle in any
  order. \<open>waiting\<close> holds the requests in flight, \<open>sent\<close> what has been answered so far.
\<close>

datatype pending =
    AwaitSentence string nat
  | AwaitRoleplay jsstring nat
  | AwaitTherapist jsstring nat

fun callOf :: "pending \<Rightarrow> nat" where
  "callOf (AwaitSentence resultKey n) = n"
| "callOf (AwaitRoleplay key n) = n"
| "callOf (AwaitTherapist key n) = n"

fun start :: "route \<Rightarrow> props \<Rightarrow> server \<Rightarrow> pending progress \<times> server" where
  "start CorrectGrammar reqBody s =
     (case sentence_start reqBody s of
        (Done out, s1) \<Rightarrow> (Done out, s1)
      | (Awaiting n, s1) \<Rightarrow> (Awaiting (AwaitSentence ''correctedSentence'' n), s1))"
| "start AutoComplete reqBody s =
     (case sentence_start reqBody s of
        (Done out, s1) \<Rightarrow> (Done out, s1)
      | (Awaiting n, s1) \<Rightarrow> (Awaiting (AwaitSentence ''completedSentence'' n), s1))"
| "start Roleplay reqBody s =
     (case roleplay_start reqBody s of
        (Done out, s1) \<Rightarrow> (Done out, s1)
      | (Awaiting (key, n), s1) \<Rightarrow> (Awaiting (AwaitRoleplay key n), s1))"
| "start ResetHistory reqBody s =
     (case reset_history reqBody s of (out, s1) \<Rightarrow> (Done out, s1))"
| "start TherapistChat reqBody s =
     (case therapist_start reqBody s of
        (Done out, s1) \<Rightarrow> (Done out, s1)
      | (Awaiting (key, n), s1) \<Rightarrow> (Awaiting (AwaitTherapist key n), s1))"
| "start TherapistReset reqBody s =
     (case therapist_reset reqBody s of (out, s1) \<Rightarrow> (Done out, s1))"

fun resume :: "parser \<Rightarrow> pending \<Rightarrow> reply \<Rightarrow> server \<Rightarrow> outcome \<times> server" where
  "resume parse (AwaitSentence resultKey n) reply s = catch (sentence_resume resultKey reply s)"
| "resume parse (AwaitRoleplay key n) reply s = catch (roleplay_resume parse key reply s)"
| "resume parse (AwaitTherapist key n) reply s = catch (therapist_resume key reply s)"

record system =
  srv :: server
  waiting :: "pending list"
  sent :: "outcome list"

datatype event = Arrive route props | Settle nat

text \<open>\<open>Settle i\<close>: the call of the \<open>i\<close>-th waiting request settles; no such request, no change.\<close>

fun step :: "parser \<Rightarrow> (nat \<Rightarrow> reply) \<Rightarrow> system \<Rightarrow> event \<Rightarrow> system" where
  "step parse model sys (Arrive route reqBody) =
     (case start route reqBody (srv sys) of
        (Done out, s1) \<Rightarrow> sys\<lparr>srv := s1, sent := sent sys @ [out]\<rparr>
      | (Awaiting p, s1) \<Rightarrow> sys\<lparr>srv := s1, waiting := waiting sys @ [p]\<rparr>)"
| "step parse model sys (Settle i) =
     (if i < length (waiting sys)
      then (case resume parse (waiting sys ! i) (model (callOf (waiting sys ! i))) (srv sys) of
              (out, s1) \<Rightarrow>
                sys\<lparr>srv := s1,
                    waiting := take i (waiting sys) @ drop (Suc i) (waiting sys),
                    sent := sent sys @ [out]\<rparr>)
      else sys)"

definition events :: "parser \<Rightarrow> (nat \<Rightarrow> reply) \<Rightarrow> event list \<Rightarrow> system \<Rightarrow> system" where
  "events parse model evs sys = foldl (step parse model) sys evs"

section \<open>Vocabulary of the properties\<close>

definition hasField :: "jsval \<Rightarrow> jsstring \<Rightarrow> bool" where
  "hasField v k = (case v of JObj kvs \<Rightarrow> k \<in> fst ` set kvs | _ \<Rightarrow> False)"

definition knownShape :: "response \<Rightarrow> bool" where
  "knownShape r \<longleftrightarrow>
     (\<exists>kvs. r = ok kvs) \<or> (\<exists>m. r = errorOnly 400 m) \<or> (\<exists>m. r = errorOnly 404 m)
     \<or> (\<exists>e. r = aiModelError e)"

definition entriesOf :: "store \<Rightarrow> jsstring \<Rightarrow> jsval list" where
  "entriesOf h k = (case h k of Some xs \<Rightarrow> xs | None \<Rightarrow> [])"

definition initialServer :: server where
  "initialServer = \<lparr>conversationHistory = Map.empty, therapistHistory = Map.empty, modelCalls = 0\<rparr>"

definition initialSystem :: system where
  "initialSystem = \<lparr>srv = initialServer, waiting = [], sent = []\<rparr>"

text \<open>The required fields of each route and the message of its validation failure.\<close>

fun requiredFields :: "route \<Rightarrow> string list" where
  "requiredFields CorrectGrammar = [''sentence'']"
| "requiredFields AutoComplete = [''sentence'']"
| "requiredFields Roleplay = [''userId'', ''scenario'', ''message'']"
| "requiredFields TherapistChat = [''userId'', ''message'']"
| "requiredFields ResetHistory = []"
| "requiredFields TherapistReset = []"

fun validationError :: "route \<Rightarrow> string" where
  "validationError CorrectGrammar = ''Sentence is required''"
| "validationError AutoComplete = ''Sentence is required''"
| "validationError Roleplay = ''User ID, scenario, and message are required''"
| "validationError TherapistChat = ''User ID and message are required''"
| "validationError ResetHistory = []"
| "validationError TherapistReset = []"

text \<open>
  For the examples, \<open>JSON.parse\<close> is given by a table of its values, and throws on every
  text outside the table. The examples pass it the two texts of \<open>exampleParse\<close> and the
  text \<open>{oops}\<close>, which is not JSON: \<open>JSON.parse\<close> throws a SyntaxError there as well (the
  wording of the message is the engine's).
\<close>

definition parseTable :: "(string \<times> props) list \<Rightarrow> parser" where
  "parseTable table t =
     (case map_of (map (\<lambda>(k, v). (str k, v)) table) t of
        Some v \<Rightarrow> Inr v
      | None \<Rightarrow> Inl (str ''Unexpected token''))"

definition exampleJSON :: string where
  \<open>exampleJSON = ''{"response":"Hi","correction":"Hello"}''\<close>

definition exampleReply :: jsstring where
  "exampleReply = str (''Sure! '' @ exampleJSON @ '' Bye'')"

definition exampleParse :: parser where
  "exampleParse =
     parseTable
       [(''{}'', []),
        (exampleJSON,
           [(str ''response'', JStr (str ''Hi'')), (str ''correction'', JStr (str ''Hello''))])]"

definition exampleRoleplay :: props where
  "exampleRoleplay =
     [(str ''userId'', JStr (str ''u1'')), (str ''scenario'', JStr (str ''cafe'')),
      (str ''message'', JStr (str ''hello''))]"

definition exampleChat :: props where
  "exampleChat = [(str ''userId'', JStr (str ''u1'')), (str ''message'', JStr (str ''hello''))]"

section \<open>Properties\<close>

subsection \<open>Strings and the pattern\<close>

lemma unat_codeUnit: "unat (codeUnit c) = of_char c"
proof -
  have "(of_char c :: nat) mod 256 < 256"
    by (rule mod_less_divisor) simp
  then have "(of_char c :: nat) < 256" by simp
  then have "(of_char c :: nat) < 65536" by linarith
  then show ?thesis
    by (simp add: codeUnit_def unat_of_nat)
qed

lemma codeUnit_eq_iff [simp]: "codeUnit c = codeUnit d \<longleftrightarrow> c = d"
proof
  assume "codeUnit c = codeUnit d"
  then have "unat (codeUnit c) = unat (codeUnit d)" by simp
  then have "(of_char c :: nat) = of_char d" by (simp only: unat_codeUnit)
  then show "c = d" by simp
qed simp

lemma str_eq_iff [simp]: "str a = str b \<longleftrightarrow> a = b"
  by (simp add: str_def inj_map_eq_map inj_def)

lemma str_Nil [simp]: "str [] = []"
  by (simp add: str_def)

lemma greedy_close_none: "rbrace \<notin> set cs \<Longrightarrow> greedy_close cs = None"
  by (induction cs) auto

lemma greedy_close_some:
  "rbrace \<in> set cs \<Longrightarrow>
   greedy_close cs = Some (rev (dropWhile (\<lambda>x. x \<noteq> rbrace) (rev cs)))"
proof (induction cs)
  case Nil
  then show ?case by simp
next
  case (Cons c cs)
  show ?case
  proof (cases "rbrace \<in> set cs")
    case True
    then have "rbrace \<in> set (rev cs)" by simp
    then have "dropWhile (\<lambda>x. x \<noteq> rbrace) (rev cs @ [c]) =
               dropWhile (\<lambda>x. x \<noteq> rbrace) (rev cs) @ [c]"
      by (rule dropWhile_append1) simp
    with True Cons.IH show ?thesis by simp
  next
    case False
    with Cons.prems have c: "c = rbrace" by simp
    from False have "\<And>x. x \<in> set (rev cs) \<Longrightarrow> x \<noteq> rbrace" by auto
    then have "dropWhile (\<lambda>x. x \<noteq> rbrace) (rev cs @ [c]) =
               dropWhile (\<lambda>x. x \<noteq> rbrace) [c]"
      by (rule dropWhile_append2)
    with False c show ?thesis by (simp add: greedy_close_none)
  qed
qed

lemma regex_match_none: "rbrace \<notin> set cs \<Longrightarrow> regex_match cs = None"
proof (induction cs)
  case Nil
  then show ?case by simp
next
  case (Cons c cs)
  then show ?case by (simp add: greedy_close_none)
qed

lemma regex_match_no_open: "lbrace \<notin> set cs \<Longrightarrow> regex_match cs = None"
  by (induction cs) auto

lemma regex_match_dropWhile:
  "regex_match s = regex_match (dropWhile (\<lambda>x. x \<noteq> lbrace) s)"
  by (induction s) auto

lemma regex_match_at_open:
  "regex_match (lbrace # cs) =
     (if rbrace \<in> set cs
      then Some (lbrace # rev (dropWhile (\<lambda>x. x \<noteq> rbrace) (rev cs)))
      else None)"
  by (simp add: greedy_close_some greedy_close_none regex_match_none)

lemma lbrace_neq_rbrace: "lbrace \<noteq> rbrace"
  by (simp add: lbrace_def rbrace_def)

lemma rev_dropWhile_rev_take:
  "rev (dropWhile P (rev xs)) = take (length xs - length (takeWhile P (rev xs))) xs"
proof -
  have "rev (dropWhile P (rev xs)) = rev (drop (length (takeWhile P (rev xs))) (rev xs))"
    by (simp add: dropWhile_eq_drop)
  also have "\<dots> = take (length xs - length (takeWhile P (rev xs))) xs"
    by (simp add: rev_drop)
  finally show ?thesis .
qed


lemma first_index_decomp:
  assumes "c \<notin> set pre"
  shows "first_index c (pre @ c # cs) = Some (length pre)"
proof -
  from assms have "\<And>x. x \<in> set pre \<Longrightarrow> x \<noteq> c" by auto
  then have "takeWhile (\<lambda>x. x \<noteq> c) (pre @ c # cs) = pre @ takeWhile (\<lambda>x. x \<noteq> c) (c # cs)"
    by (rule takeWhile_append2)
  then show ?thesis by (simp add: first_index_def)
qed

lemma last_index_in_tail:
  assumes "rbrace \<in> set cs"
  shows "last_index rbrace (pre @ lbrace # cs) =
         Some (length pre + length cs - length (takeWhile (\<lambda>x. x \<noteq> rbrace) (rev cs)))"
proof -
  from assms have "rbrace \<in> set (rev cs)" by simp
  then have "takeWhile (\<lambda>x. x \<noteq> rbrace) (rev cs @ (lbrace # rev pre)) =
             takeWhile (\<lambda>x. x \<noteq> rbrace) (rev cs)"
    by (rule takeWhile_append1) simp
  moreover have "length (takeWhile (\<lambda>x. x \<noteq> rbrace) (rev cs)) \<le> length cs"
    using length_takeWhile_le [of "\<lambda>x. x \<noteq> rbrace" "rev cs"] by simp
  ultimately show ?thesis using assms by (simp add: last_index_def)
qed

lemma length_takeWhile_less_mem:
  "x \<in> set xs \<Longrightarrow> \<not> P x \<Longrightarrow> length (takeWhile P xs) < length xs"
  by (induction xs) auto

lemma takeWhile_rev_less:
  assumes "rbrace \<in> set cs"
  shows "length (takeWhile (\<lambda>x. x \<noteq> rbrace) (rev cs)) < length cs"
proof -
  from assms have "rbrace \<in> set (rev cs)" by simp
  then have "length (takeWhile (\<lambda>x. x \<noteq> rbrace) (rev cs)) < length (rev cs)"
    by (rule length_takeWhile_less_mem) simp
  then show ?thesis by simp
qed

lemma last_index_not_in_tail:
  assumes "rbrace \<notin> set cs" and "last_index rbrace (pre @ lbrace # cs) = Some j"
  shows "j < length pre"
proof -
  from assms(1) have "\<And>x. x \<in> set (rev cs @ [lbrace]) \<Longrightarrow> x \<noteq> rbrace"
    using lbrace_neq_rbrace by auto
  then have "takeWhile (\<lambda>x. x \<noteq> rbrace) ((rev cs @ [lbrace]) @ rev pre) =
             (rev cs @ [lbrace]) @ takeWhile (\<lambda>x. x \<noteq> rbrace) (rev pre)"
    by (rule takeWhile_append2)
  then have len: "length (takeWhile (\<lambda>x. x \<noteq> rbrace) (rev (pre @ lbrace # cs))) =
             Suc (length cs) + length (takeWhile (\<lambda>x. x \<noteq> rbrace) (rev pre))"
    by simp
  from assms have "rbrace \<in> set pre"
    using lbrace_neq_rbrace by (auto simp: last_index_def split: if_splits)
  then have "0 < length pre" by auto
  with assms(2) len show ?thesis
    by (auto simp: last_index_def split: if_splits)
qed

lemma first_to_last_brace_decomp:
  assumes "lbrace \<notin> set pre"
  shows "first_to_last_brace (pre @ lbrace # cs) =
     (if rbrace \<in> set cs
      then Some (lbrace # rev (dropWhile (\<lambda>x. x \<noteq> rbrace) (rev cs)))
      else None)"
proof (cases "rbrace \<in> set cs")
  case True
  let ?t = "length (takeWhile (\<lambda>x. x \<noteq> rbrace) (rev cs))"
  have lt: "?t < length cs" using True by (rule takeWhile_rev_less)
  then have "Suc (length pre + length cs - ?t) - length pre = Suc (length cs - ?t)"
    by linarith
  then have "substring (pre @ lbrace # cs) (length pre) (Suc (length pre + length cs - ?t)) =
        lbrace # take (length cs - ?t) cs"
    by (simp add: substring_def)
  with True lt show ?thesis
    by (simp add: first_to_last_brace_def first_index_decomp [OF assms]
        last_index_in_tail rev_dropWhile_rev_take)
next
  case False
  show ?thesis
  proof (cases "last_index rbrace (pre @ lbrace # cs)")
    case None
    with False show ?thesis
      by (simp add: first_to_last_brace_def first_index_decomp [OF assms])
  next
    case (Some j)
    with False have "j < length pre" by (simp add: last_index_not_in_tail)
    with False Some show ?thesis
      by (simp add: first_to_last_brace_def first_index_decomp [OF assms])
  qed
qed

text \<open>The pattern finds the substring from the first \<open>{\<close> to the last \<open>}\<close>, by position.\<close>

lemma regex_match_first_to_last: "regex_match s = first_to_last_brace s"
proof (cases "lbrace \<in> set s")
  case True
  then obtain pre cs where s: "s = pre @ lbrace # cs" and pre: "lbrace \<notin> set pre"
    by (meson split_list_first)
  from pre have "\<And>x. x \<in> set pre \<Longrightarrow> x \<noteq> lbrace" by auto
  then have "dropWhile (\<lambda>x. x \<noteq> lbrace) (pre @ lbrace # cs) =
             dropWhile (\<lambda>x. x \<noteq> lbrace) (lbrace # cs)"
    by (rule dropWhile_append2)
  then have "regex_match s = regex_match (lbrace # cs)"
    using regex_match_dropWhile [of s] s by simp
  then show ?thesis
    by (simp only: regex_match_at_open s first_to_last_brace_decomp [OF pre])
next
  case False
  then show ?thesis
    by (simp add: regex_match_no_open first_to_last_brace_def first_index_def)
qed

lemma regex_match_examples:
  "regex_match (str ''Sure {a} and {b} ok'') = Some (str ''{a} and {b}'')"
  "regex_match (str ''} no {'') = None"
  by (simp_all add: str_def codeUnit_def lbrace_def rbrace_def)

lemma str_eq_Nil_iff [simp]: "str s = [] \<longleftrightarrow> s = []" "[] = str s \<longleftrightarrow> s = []"
  by (auto simp: str_def)

lemma str_append [simp]: "str a @ str b = str (a @ b)"
  by (simp add: str_def)

lemmas route_defs =
  correct_grammar_def auto_complete_def roleplay_def reset_history_def therapist_chat_def
  therapist_reset_def sentence_start_def sentence_prompt_def sentence_resume_def
  roleplay_start_def roleplay_prompt_def roleplay_resume_def
  therapist_start_def therapist_prompt_def therapist_resume_def suspend_def catch_def
  generateContent_def push_def initHistory_def getSlot_def objectPrototypeKeys_def
  getProp_def Let_def

lemmas example_defs =
  initialServer_def exampleRoleplay_def exampleChat_def exampleParse_def parseTable_def
  exampleJSON_def exampleReply_def

subsection \<open>Validation\<close>

lemma getProp_missing: "map_of kvs k = None \<Longrightarrow> getProp kvs k = JUndefined"
  by (simp add: getProp_def)

lemma required_falsy_rejected:
  assumes "f \<in> set (requiredFields route)" and "\<not> truthy (getProp reqBody (str f))"
  shows "dispatch parse model route reqBody s =
         (Responded (errorOnly 400 (validationError route)), s)"
proof (cases route)
  case CorrectGrammar
  with assms show ?thesis by (simp add: correct_grammar_def sentence_start_def)
next
  case AutoComplete
  with assms show ?thesis by (simp add: auto_complete_def sentence_start_def)
next
  case Roleplay
  with assms show ?thesis by (auto simp: roleplay_def roleplay_start_def)
next
  case ResetHistory
  with assms show ?thesis by simp
next
  case TherapistChat
  with assms show ?thesis by (auto simp: therapist_chat_def therapist_start_def)
next
  case TherapistReset
  with assms show ?thesis by simp
qed

lemma getProp_filter_other:
  "getProp (filter (\<lambda>kv. fst kv \<noteq> k) kvs) k = JUndefined"
  by (induction kvs) (auto simp: getProp_def)

text \<open>
  Claim C9: a request that lacks a required field of its route (\<open>sentence\<close> for
  /correct-grammar and /auto-complete; \<open>userId\<close>, \<open>scenario\<close> and \<open>message\<close> for /roleplay;
  \<open>userId\<close> and \<open>message\<close> for /therapist-chat) is answered with status 400 and the fixed
  message of the route, and the server state is returned as it was: no store is changed
  and the model is not called.
\<close>

theorem missing_field_rejected:
  assumes "f \<in> set (requiredFields route)" and "map_of reqBody (str f) = None"
  shows "dispatch parse model route reqBody s =
         (Responded \<lparr>status = 400, body = JObj [(str ''error'', JStr (str (validationError route)))]\<rparr>, s)"
  using required_falsy_rejected [OF assms(1), of reqBody parse model s] assms(2)
  by (simp add: getProp_missing errorOnly_def)

lemma falsy_values:
  "\<not> truthy v \<longleftrightarrow> v \<in> {JUndefined, JNull, JBool False, JNum (str ''0''), JNum (str ''NaN''), JStr []}"
  by (cases v) auto

text \<open>
  Claim C10: validation tests falsiness, not presence. A request whose required field is
  present with a falsy value (\<open>null\<close>, \<open>false\<close>, \<open>0\<close>, \<open>NaN\<close> or the empty string, see
  \<open>falsy_values\<close>) is answered with the same status 400 and message, and has the same
  result as the request without that field.
\<close>

theorem falsy_field_rejected:
  assumes "f \<in> set (requiredFields route)" and "\<not> truthy (getProp reqBody (str f))"
  shows "dispatch parse model route reqBody s =
           (Responded \<lparr>status = 400, body = JObj [(str ''error'', JStr (str (validationError route)))]\<rparr>, s)
         \<and> dispatch parse model route reqBody s =
           dispatch parse model route (filter (\<lambda>kv. fst kv \<noteq> str f) reqBody) s"
proof -
  have "\<not> truthy (getProp (filter (\<lambda>kv. fst kv \<noteq> str f) reqBody) (str f))"
    by (simp add: getProp_filter_other)
  then have "dispatch parse model route (filter (\<lambda>kv. fst kv \<noteq> str f) reqBody) s =
         (Responded (errorOnly 400 (validationError route)), s)"
    using assms(1) by (rule required_falsy_rejected [rotated])
  with required_falsy_rejected [OF assms, of parse model s] show ?thesis
    by (simp add: errorOnly_def)
qed

theorem falsy_field_rejected_witness:
  "dispatch exampleParse (\<lambda>n. Text (str ''ok'')) CorrectGrammar [(str ''sentence'', JStr [])] initialServer =
     (Responded \<lparr>status = 400, body = JObj [(str ''error'', JStr (str ''Sentence is required''))]\<rparr>,
      initialServer)
   \<and> dispatch exampleParse (\<lambda>n. Text (str ''ok'')) CorrectGrammar [(str ''sentence'', JStr [])] initialServer =
     dispatch exampleParse (\<lambda>n. Text (str ''ok'')) CorrectGrammar [] initialServer"
proof -
  have f: "''sentence'' \<in> set (requiredFields CorrectGrammar)" by simp
  have t: "\<not> truthy (getProp [(str ''sentence'', JStr [])] (str ''sentence''))"
    by (simp add: getProp_def)
  have e: "filter (\<lambda>kv. fst kv \<noteq> str ''sentence'') [(str ''sentence'', JStr [])] = []"
    by simp
  note w = falsy_field_rejected [OF f t, of exampleParse "\<lambda>n. Text (str ''ok'')" initialServer]
  have a: "dispatch exampleParse (\<lambda>n. Text (str ''ok'')) CorrectGrammar [(str ''sentence'', JStr [])] initialServer =
     (Responded \<lparr>status = 400, body = JObj [(str ''error'', JStr (str ''Sentence is required''))]\<rparr>,
      initialServer)"
    using w [THEN conjunct1] by (simp only: validationError.simps)
  have b: "dispatch exampleParse (\<lambda>n. Text (str ''ok'')) CorrectGrammar [(str ''sentence'', JStr [])] initialServer =
     dispatch exampleParse (\<lambda>n. Text (str ''ok'')) CorrectGrammar [] initialServer"
    using w [THEN conjunct2] by (simp only: e)
  from a b show ?thesis by (rule conjI)
qed

theorem missing_field_rejected_witness:
  "dispatch exampleParse (\<lambda>n. Text (str ''ok'')) Roleplay
       [(str ''userId'', JStr (str ''u1'')), (str ''message'', JStr (str ''hello''))] initialServer =
     (Responded \<lparr>status = 400,
        body = JObj [(str ''error'', JStr (str ''User ID, scenario, and message are required''))]\<rparr>,
      initialServer)"
proof -
  have f: "''scenario'' \<in> set (requiredFields Roleplay)" by simp
  have m: "map_of [(str ''userId'', JStr (str ''u1'')), (str ''message'', JStr (str ''hello''))]
             (str ''scenario'') = None"
    by simp
  from missing_field_rejected [OF f m, of exampleParse "\<lambda>n. Text (str ''ok'')" initialServer]
  show ?thesis by simp
qed

subsection \<open>The two parts of a handler, case by case\<close>

lemma status_simps [simp]:
  "status (ok kvs) = 200" "status (errorOnly c m) = c" "status (aiModelError e) = 500"
  "body (ok kvs) = JObj kvs"
  by (simp_all add: ok_def errorOnly_def aiModelError_def)

lemma details_aiModelError [simp]:
  "getMember (body (aiModelError e)) (str ''details'') = JStr e"
  by (simp add: aiModelError_def getProp_def)

lemma catch_cases:
  "catch x = (out, s') \<Longrightarrow>
   (\<exists>e. x = (Inl e, s') \<and> out = Responded (aiModelError e)) \<or>
   (\<exists>res. x = (Inr res, s') \<and> out = Responded res)"
  by (auto simp: catch_def split: prod.splits sum.splits)

lemma catch_not_uncaught: "catch x \<noteq> (Uncaught e, s')"
  by (auto simp: catch_def split: prod.splits sum.splits)

lemma catch_state: "catch x = (out, s') \<Longrightarrow> s' = snd x"
  by (auto simp: catch_def split: prod.splits sum.splits)

lemma suspend_cases:
  "suspend x = (p, s') \<Longrightarrow>
   (\<exists>e. x = (Inl e, s') \<and> p = Done (Responded (aiModelError e))) \<or>
   (\<exists>a. x = (Inr a, s') \<and> p = Awaiting a)"
  by (auto simp: suspend_def split: prod.splits sum.splits)

lemma push_init:
  "push (initHistory h key) key e = Inr h' \<Longrightarrow> h' = h(key \<mapsto> entriesOf h key @ [e])"
  by (auto simp: push_def initHistory_def getSlot_def entriesOf_def
      split: slot.splits option.splits if_splits)

lemma push_init_Inr:
  "getSlot h key \<noteq> Inherited \<Longrightarrow>
   push (initHistory h key) key e = Inr (h(key \<mapsto> entriesOf h key @ [e]))"
  by (auto simp: push_def initHistory_def getSlot_def entriesOf_def
      split: slot.splits option.splits if_splits)

lemma push_own:
  "h key = Some xs \<Longrightarrow> push h key e = Inr (h(key \<mapsto> xs @ [e]))"
  by (simp add: push_def getSlot_def)

lemma push_Inr:
  "push h key e = Inr h' \<Longrightarrow> \<exists>xs. h key = Some xs \<and> h' = h(key \<mapsto> xs @ [e])"
  by (auto simp: push_def getSlot_def split: slot.splits option.splits if_splits)

lemma push_Inl:
  "push h key e = Inl sl \<Longrightarrow> h key = None"
  by (auto simp: push_def getSlot_def split: slot.splits option.splits if_splits)

text \<open>The prompts: a conversion throws, or the call is made; no store changes.\<close>

lemma prompt_cases:
  assumes "x = sentence_prompt v s \<or> x = roleplay_prompt scenario message s
           \<or> x = therapist_prompt key message s"
  shows "(\<exists>e. x = (Inl e, s))
       \<or> x = (Inr (modelCalls s), s\<lparr>modelCalls := Suc (modelCalls s)\<rparr>)"
  using assms
  by (auto simp: sentence_prompt_def roleplay_prompt_def therapist_prompt_def generateContent_def
      split: sum.splits slot.splits)

lemma sentence_start_cases:
  assumes "sentence_start reqBody s = (p, s1)"
  shows "(p = Done (Responded (errorOnly 400 ''Sentence is required'')) \<and> s1 = s)
       \<or> (\<exists>e. p = Done (Responded (aiModelError e)) \<and> s1 = s)
       \<or> (p = Awaiting (modelCalls s) \<and> s1 = s\<lparr>modelCalls := Suc (modelCalls s)\<rparr>)"
proof (cases "truthy (getProp reqBody (str ''sentence''))")
  case False
  with assms show ?thesis by (simp add: sentence_start_def)
next
  case True
  with assms have "suspend (sentence_prompt (getProp reqBody (str ''sentence'')) s) = (p, s1)"
    by (simp add: sentence_start_def)
  from suspend_cases [OF this]
    prompt_cases [of "sentence_prompt (getProp reqBody (str ''sentence'')) s"
      "getProp reqBody (str ''sentence'')" s]
  show ?thesis by auto
qed

lemma sentence_resume_cases:
  "sentence_resume k reply s = (res, s') \<Longrightarrow>
   s' = s \<and> ((\<exists>e. res = Inl e) \<or> (\<exists>kvs. res = Inr (ok kvs)))"
  by (auto simp: sentence_resume_def split: reply.splits)

text \<open>
  The first part of /roleplay: a validation failure or an uncaught TypeError with no
  change, or the user entry is stored and the request ends with 500 or waits for the model.
\<close>

lemma roleplay_start_cases:
  assumes "roleplay_start reqBody s = (p, s1)"
  shows "(p = Done (Responded (errorOnly 400 ''User ID, scenario, and message are required''))
            \<and> s1 = s)
       \<or> (\<exists>e. p = Done (Uncaught e) \<and> s1 = s)
       \<or> (\<exists>key. ToString (getProp reqBody (str ''userId'')) = Inr key
            \<and> conversationHistory s1 = (conversationHistory s)
                 (key \<mapsto> entriesOf (conversationHistory s) key @
                    [userMessage (getProp reqBody (str ''message''))])
            \<and> therapistHistory s1 = therapistHistory s
            \<and> ((\<exists>e. p = Done (Responded (aiModelError e)) \<and> modelCalls s1 = modelCalls s)
                \<or> (p = Awaiting (key, modelCalls s) \<and> modelCalls s1 = Suc (modelCalls s))))"
proof (cases "\<not> truthy (getProp reqBody (str ''userId'')) \<or> \<not> truthy (getProp reqBody (str ''scenario''))
              \<or> \<not> truthy (getProp reqBody (str ''message''))")
  case True
  with assms show ?thesis by (auto simp: roleplay_start_def Let_def)
next
  case False
  show ?thesis
  proof (cases "ToString (getProp reqBody (str ''userId''))")
    case (Inl e)
    with False assms show ?thesis by (auto simp: roleplay_start_def Let_def)
  next
    case (Inr key)
    let ?u = "userMessage (getProp reqBody (str ''message''))"
    show ?thesis
    proof (cases "push (initHistory (conversationHistory s) key) key ?u")
      case (Inl sl)
      with False Inr assms show ?thesis by (auto simp: roleplay_start_def Let_def)
    next
      case h: (Inr h)
      let ?s0 = "s\<lparr>conversationHistory := h\<rparr>"
      let ?x = "roleplay_prompt (getProp reqBody (str ''scenario''))
                  (getProp reqBody (str ''message'')) ?s0"
      from h have h_eq: "h = (conversationHistory s)
           (key \<mapsto> entriesOf (conversationHistory s) key @ [?u])"
        by (rule push_init)
      obtain q s2 where q: "suspend ?x = (q, s2)" by (cases "suspend ?x")
      with False Inr h assms have p: "(p, s1) = (case q of Done out \<Rightarrow> (Done out, s2)
              | Awaiting n \<Rightarrow> (Awaiting (key, n), s2))"
        by (auto simp: roleplay_start_def Let_def split: progress.splits)
      from suspend_cases [OF q]
        prompt_cases [of ?x _ ?s0 "getProp reqBody (str ''scenario'')"
          "getProp reqBody (str ''message'')"]
      have "(\<exists>e. q = Done (Responded (aiModelError e)) \<and> s2 = ?s0)
          \<or> (q = Awaiting (modelCalls s) \<and> s2 = ?s0\<lparr>modelCalls := Suc (modelCalls s)\<rparr>)"
        by auto
      with p Inr h_eq show ?thesis by auto
    qed
  qed
qed

text \<open>
  The second part of /roleplay: every failure leaves the state as it is found; a success
  needs the user's array in the store at that moment and appends the AI entry to it.
\<close>

lemma roleplay_resume_cases:
  assumes "roleplay_resume parse key reply s = (res, s')"
  shows "(\<exists>e. res = Inl e \<and> s' = s)
       \<or> (\<exists>t j aiResponse xs. reply = Text t \<and> regex_match t = Some j
            \<and> parse j = Inr aiResponse \<and> conversationHistory s key = Some xs
            \<and> res = Inr (ok [(str ''roleplayResponse'', JObj aiResponse)])
            \<and> s' = s\<lparr>conversationHistory := (conversationHistory s)
                 (key \<mapsto> xs @ [aiMessage (getProp aiResponse (str ''response''))])\<rparr>)"
  using assms
  by (auto simp: roleplay_resume_def split: sum.splits reply.splits option.splits
      dest!: push_Inr)

lemma therapist_start_cases:
  assumes "therapist_start reqBody s = (p, s1)"
  shows "(p = Done (Responded (errorOnly 400 ''User ID and message are required'')) \<and> s1 = s)
       \<or> (\<exists>e. p = Done (Uncaught e) \<and> s1 = s)
       \<or> (\<exists>key. ToString (getProp reqBody (str ''userId'')) = Inr key
            \<and> therapistHistory s1 = (therapistHistory s)
                 (key \<mapsto> entriesOf (therapistHistory s) key @
                    [userContent (getProp reqBody (str ''message''))])
            \<and> conversationHistory s1 = conversationHistory s
            \<and> ((\<exists>e. p = Done (Responded (aiModelError e)) \<and> modelCalls s1 = modelCalls s)
                \<or> (p = Awaiting (key, modelCalls s) \<and> modelCalls s1 = Suc (modelCalls s))))"
proof (cases "\<not> truthy (getProp reqBody (str ''userId'')) \<or> \<not> truthy (getProp reqBody (str ''message''))")
  case True
  with assms show ?thesis by (auto simp: therapist_start_def Let_def)
next
  case False
  show ?thesis
  proof (cases "ToString (getProp reqBody (str ''userId''))")
    case (Inl e)
    with False assms show ?thesis by (auto simp: therapist_start_def Let_def)
  next
    case (Inr key)
    let ?u = "userContent (getProp reqBody (str ''message''))"
    show ?thesis
    proof (cases "push (initHistory (therapistHistory s) key) key ?u")
      case (Inl sl)
      with False Inr assms show ?thesis by (auto simp: therapist_start_def Let_def)
    next
      case h: (Inr h)
      let ?s0 = "s\<lparr>therapistHistory := h\<rparr>"
      let ?x = "therapist_prompt key (getProp reqBody (str ''message'')) ?s0"
      from h have h_eq: "h = (therapistHistory s)
           (key \<mapsto> entriesOf (therapistHistory s) key @ [?u])"
        by (rule push_init)
      obtain q s2 where q: "suspend ?x = (q, s2)" by (cases "suspend ?x")
      with False Inr h assms have p: "(p, s1) = (case q of Done out \<Rightarrow> (Done out, s2)
              | Awaiting n \<Rightarrow> (Awaiting (key, n), s2))"
        by (auto simp: therapist_start_def Let_def split: progress.splits)
      from suspend_cases [OF q]
        prompt_cases [of ?x _ ?s0 _ "getProp reqBody (str ''message'')" key]
      have "(\<exists>e. q = Done (Responded (aiModelError e)) \<and> s2 = ?s0)
          \<or> (q = Awaiting (modelCalls s) \<and> s2 = ?s0\<lparr>modelCalls := Suc (modelCalls s)\<rparr>)"
        by auto
      with p Inr h_eq show ?thesis by auto
    qed
  qed
qed

lemma therapist_resume_cases:
  assumes "therapist_resume key reply s = (res, s')"
  shows "(\<exists>e. res = Inl e \<and> s' = s)
       \<or> (\<exists>t xs. reply = Text t \<and> therapistHistory s key = Some xs
            \<and> res = Inr (ok [(str ''therapistResponse'', JStr (trim t))])
            \<and> s' = s\<lparr>therapistHistory := (therapistHistory s)
                 (key \<mapsto> xs @ [aiContent (trim t)])\<rparr>)"
  using assms
  by (auto simp: therapist_resume_def Let_def split: sum.splits reply.splits dest!: push_Inr)

text \<open>A request served alone: the second part finds the store as the first part left it.\<close>

lemma roleplay_cases:
  assumes "roleplay parse model reqBody s = (Responded r, s')"
  shows "(r = errorOnly 400 ''User ID, scenario, and message are required'' \<and> s' = s)
       \<or> (\<exists>key e. ToString (getProp reqBody (str ''userId'')) = Inr key
            \<and> r = aiModelError e
            \<and> conversationHistory s' = (conversationHistory s)
                 (key \<mapsto> entriesOf (conversationHistory s) key @ [userMessage (getProp reqBody (str ''message''))])
            \<and> therapistHistory s' = therapistHistory s)
       \<or> (\<exists>key t j aiResponse. ToString (getProp reqBody (str ''userId'')) = Inr key
            \<and> model (modelCalls s) = Text t \<and> regex_match t = Some j \<and> parse j = Inr aiResponse
            \<and> r = ok [(str ''roleplayResponse'', JObj aiResponse)]
            \<and> conversationHistory s' = (conversationHistory s)
                 (key \<mapsto> entriesOf (conversationHistory s) key @
                    [userMessage (getProp reqBody (str ''message'')),
                     aiMessage (getProp aiResponse (str ''response''))])
            \<and> therapistHistory s' = therapistHistory s)"
proof -
  obtain p s1 where st: "roleplay_start reqBody s = (p, s1)"
    by (cases "roleplay_start reqBody s")
  show ?thesis
  proof (cases p)
    case (Done out)
    with st assms have "out = Responded r" "s1 = s'" by (simp_all add: roleplay_def)
    with roleplay_start_cases [OF st] Done show ?thesis by auto
  next
    case (Awaiting a)
    obtain key n where a: "a = (key, n)" by (cases a)
    with st assms Awaiting have c: "catch (roleplay_resume parse key (model n) s1) = (Responded r, s')"
      by (simp add: roleplay_def)
    obtain res where t: "roleplay_resume parse key (model n) s1 = (res, s')"
      and res: "(\<exists>e. res = Inl e \<and> r = aiModelError e) \<or> res = Inr r"
      using catch_cases [OF c] by auto
    from roleplay_start_cases [OF st] Awaiting a
    have k: "ToString (getProp reqBody (str ''userId'')) = Inr key" and n: "n = modelCalls s"
      and h: "conversationHistory s1 = (conversationHistory s)
                 (key \<mapsto> entriesOf (conversationHistory s) key @
                    [userMessage (getProp reqBody (str ''message''))])"
      and th: "therapistHistory s1 = therapistHistory s"
      by auto
    from roleplay_resume_cases [OF t] res k n h th show ?thesis
      by auto
  qed
qed

lemma therapist_chat_cases:
  assumes "therapist_chat model reqBody s = (Responded r, s')"
  shows "(r = errorOnly 400 ''User ID and message are required'' \<and> s' = s)
       \<or> (\<exists>key e. ToString (getProp reqBody (str ''userId'')) = Inr key
            \<and> r = aiModelError e
            \<and> therapistHistory s' = (therapistHistory s)
                 (key \<mapsto> entriesOf (therapistHistory s) key @ [userContent (getProp reqBody (str ''message''))])
            \<and> conversationHistory s' = conversationHistory s)
       \<or> (\<exists>key t. ToString (getProp reqBody (str ''userId'')) = Inr key
            \<and> model (modelCalls s) = Text t
            \<and> r = ok [(str ''therapistResponse'', JStr (trim t))]
            \<and> therapistHistory s' = (therapistHistory s)
                 (key \<mapsto> entriesOf (therapistHistory s) key @
                    [userContent (getProp reqBody (str ''message'')), aiContent (trim t)])
            \<and> conversationHistory s' = conversationHistory s)"
proof -
  obtain p s1 where st: "therapist_start reqBody s = (p, s1)"
    by (cases "therapist_start reqBody s")
  show ?thesis
  proof (cases p)
    case (Done out)
    with st assms have "out = Responded r" "s1 = s'" by (simp_all add: therapist_chat_def)
    with therapist_start_cases [OF st] Done show ?thesis by auto
  next
    case (Awaiting a)
    obtain key n where a: "a = (key, n)" by (cases a)
    with st assms Awaiting have c: "catch (therapist_resume key (model n) s1) = (Responded r, s')"
      by (simp add: therapist_chat_def)
    obtain res where t: "therapist_resume key (model n) s1 = (res, s')"
      and res: "(\<exists>e. res = Inl e \<and> r = aiModelError e) \<or> res = Inr r"
      using catch_cases [OF c] by auto
    from therapist_start_cases [OF st] Awaiting a
    have k: "ToString (getProp reqBody (str ''userId'')) = Inr key" and n: "n = modelCalls s"
      and h: "therapistHistory s1 = (therapistHistory s)
                 (key \<mapsto> entriesOf (therapistHistory s) key @
                    [userContent (getProp reqBody (str ''message''))])"
      and ch: "conversationHistory s1 = conversationHistory s"
      by auto
    from therapist_resume_cases [OF t] res k n h ch show ?thesis
      by auto
  qed
qed

subsection \<open>Response shapes\<close>

lemma knownShape_intros:
  "knownShape (ok kvs)" "knownShape (errorOnly 400 m)" "knownShape (errorOnly 404 m)"
  "knownShape (aiModelError e)"
  by (auto simp: knownShape_def)

lemma catch_shape:
  assumes "catch x = (Responded r, s')" and "\<And>res s. x = (Inr res, s) \<Longrightarrow> \<exists>kvs. res = ok kvs"
  shows "knownShape r"
  using catch_cases [OF assms(1)] assms(2) by (auto simp: knownShape_intros)

lemma sentence_shape:
  assumes "(case sentence_start reqBody s of
              (Done out, s1) \<Rightarrow> (out, s1)
            | (Awaiting n, s1) \<Rightarrow> catch (sentence_resume k (model n) s1)) = (Responded r, s')"
  shows "knownShape r"
proof -
  obtain p s1 where st: "sentence_start reqBody s = (p, s1)"
    by (cases "sentence_start reqBody s")
  show ?thesis
  proof (cases p)
    case (Done out)
    with st assms sentence_start_cases [OF st] show ?thesis
      by (auto simp: knownShape_intros)
  next
    case (Awaiting n)
    with st assms have "catch (sentence_resume k (model n) s1) = (Responded r, s')" by simp
    then show ?thesis
      by (rule catch_shape) (auto dest: sentence_resume_cases)
  qed
qed

lemma correct_grammar_shape:
  "correct_grammar model reqBody s = (Responded r, s') \<Longrightarrow> knownShape r"
  unfolding correct_grammar_def by (rule sentence_shape)

lemma auto_complete_shape:
  "auto_complete model reqBody s = (Responded r, s') \<Longrightarrow> knownShape r"
  unfolding auto_complete_def by (rule sentence_shape)

lemma roleplay_shape:
  "roleplay parse model reqBody s = (Responded r, s') \<Longrightarrow> knownShape r"
  by (drule roleplay_cases) (auto simp: knownShape_intros)

lemma therapist_chat_shape:
  "therapist_chat model reqBody s = (Responded r, s') \<Longrightarrow> knownShape r"
  by (drule therapist_chat_cases) (auto simp: knownShape_intros)

lemma reset_history_shape:
  "reset_history reqBody s = (Responded r, s') \<Longrightarrow> knownShape r"
  unfolding reset_history_def Let_def
  by (auto split: if_splits sum.splits simp: knownShape_intros)

lemma therapist_reset_shape:
  "therapist_reset reqBody s = (Responded r, s') \<Longrightarrow> knownShape r"
  unfolding therapist_reset_def Let_def
  by (auto split: if_splits sum.splits simp: knownShape_intros)

lemma dispatch_shape:
  "dispatch parse model route reqBody s = (Responded r, s') \<Longrightarrow> knownShape r"
  by (cases route)
    (simp_all add: correct_grammar_shape auto_complete_shape roleplay_shape
      therapist_chat_shape reset_history_shape therapist_reset_shape)

lemma str_error_neq_details: "str ''error'' \<noteq> str ''details''"
  by simp

text \<open>
  Claim C1, as the code has it: whenever a route answers with a status other than 200 (a
  validation failure, an unknown user on /reset-history, a failure of the model or of the
  parsing), the status is 400, 404 or 500 and the body has an \<open>error\<close> field; the body has
  a \<open>details\<close> field exactly when the status is 500.
\<close>

theorem error_paths_shape:
  assumes "dispatch parse model route reqBody s = (Responded r, s')" and "status r \<noteq> 200"
  shows "status r \<in> {400, 404, 500} \<and> hasField (body r) (str ''error'')
         \<and> (hasField (body r) (str ''details'') \<longleftrightarrow> status r = 500)"
  using dispatch_shape [OF assms(1)] assms(2)
  by (auto simp: knownShape_def ok_def errorOnly_def aiModelError_def hasField_def)


theorem error_paths_shape_witness:
  "dispatch exampleParse (\<lambda>n. Fails (str ''quota exceeded'')) Roleplay exampleRoleplay initialServer =
     (Responded (aiModelError (str ''quota exceeded'')),
      \<lparr>conversationHistory = [str ''u1'' \<mapsto> [userMessage (JStr (str ''hello''))]],
         therapistHistory = Map.empty, modelCalls = 1\<rparr>)
   \<and> status (aiModelError (str ''quota exceeded'')) \<noteq> 200
   \<and> status (aiModelError (str ''quota exceeded'')) \<in> {400, 404, 500}
   \<and> hasField (body (aiModelError (str ''quota exceeded''))) (str ''error'')
   \<and> hasField (body (aiModelError (str ''quota exceeded''))) (str ''details'')
   \<and> status (aiModelError (str ''quota exceeded'')) = 500"
proof -
  have run: "dispatch exampleParse (\<lambda>n. Fails (str ''quota exceeded'')) Roleplay exampleRoleplay initialServer =
     (Responded (aiModelError (str ''quota exceeded'')),
      \<lparr>conversationHistory = [str ''u1'' \<mapsto> [userMessage (JStr (str ''hello''))]],
         therapistHistory = Map.empty, modelCalls = 1\<rparr>)"
    by (simp add: route_defs example_defs)
  have ne: "status (aiModelError (str ''quota exceeded'')) \<noteq> 200"
    by (simp add: aiModelError_def)
  from error_paths_shape [OF run ne] run ne show ?thesis
    by (simp add: aiModelError_def)
qed

text \<open>
  The 400 and 404 bodies are \<open>{error}\<close> alone: /correct-grammar with an empty body answers
  400 with a body that has no \<open>details\<close> field.
\<close>

theorem validation_error_without_details:
  "correct_grammar (\<lambda>n. Text (str ''ok'')) [] initialServer =
     (Responded \<lparr>status = 400, body = JObj [(str ''error'', JStr (str ''Sentence is required''))]\<rparr>,
      initialServer)
   \<and> \<not> hasField (JObj [(str ''error'', JStr (str ''Sentence is required''))]) (str ''details'')"
  by (simp add: route_defs errorOnly_def hasField_def)

text \<open>
  Claim C2 asks for status 404 when a scoped reset names a user who has no entry in the
  store. /reset-history has that branch (\<open>reset_history_unknown_user\<close> below);
  /therapist-reset deletes and answers 200 whatever the store holds: here the store is empty.
\<close>

theorem therapist_reset_unknown_user:
  "therapist_reset [(str ''userId'', JStr (str ''u1''))] initialServer =
     (Responded \<lparr>status = 200,
        body = JObj [(str ''message'', JStr (str ''Therapist chat history reset for u1''))]\<rparr>,
      initialServer)"
  by (simp add: route_defs example_defs ok_def)

lemma reset_history_unknown_user:
  "reset_history [(str ''userId'', JStr (str ''u1''))] initialServer =
     (Responded \<lparr>status = 404,
        body = JObj [(str ''error'', JStr (str ''User not found''))]\<rparr>,
      initialServer)"
  by (simp add: route_defs example_defs errorOnly_def)

text \<open>
  A scoped /reset-history: 404 and no change when the key is neither owned nor inherited;
  otherwise 200, and the key is removed from the store.
\<close>

theorem reset_history_scoped:
  assumes "truthy (getProp reqBody (str ''userId''))"
    and "ToString (getProp reqBody (str ''userId'')) = Inr key"
  shows "(getSlot (conversationHistory s) key = Absent \<longrightarrow>
            reset_history reqBody s = (Responded (errorOnly 404 ''User not found''), s))
       \<and> (getSlot (conversationHistory s) key \<noteq> Absent \<longrightarrow>
            reset_history reqBody s =
              (Responded (ok [(str ''message'', JStr (str ''History reset for user: '' @ key))]),
               s\<lparr>conversationHistory := (conversationHistory s)(key := None)\<rparr>))"
  using assms by (simp add: reset_history_def)

theorem reset_history_scoped_witness:
  "reset_history [(str ''userId'', JStr (str ''u1''))] initialServer =
     (Responded (errorOnly 404 ''User not found''), initialServer)
   \<and> reset_history [(str ''userId'', JStr (str ''u1''))]
        (initialServer\<lparr>conversationHistory := [str ''u1'' \<mapsto> []]\<rparr>) =
     (Responded (ok [(str ''message'', JStr (str ''History reset for user: u1''))]),
      initialServer\<lparr>conversationHistory := [str ''u1'' \<mapsto> []]\<rparr>
        \<lparr>conversationHistory := [str ''u1'' \<mapsto> []](str ''u1'' := None)\<rparr>)"
proof -
  let ?b = "[(str ''userId'', JStr (str ''u1''))]"
  let ?s = "initialServer\<lparr>conversationHistory := [str ''u1'' \<mapsto> []]\<rparr>"
  have t: "truthy (getProp ?b (str ''userId''))" by (simp add: getProp_def)
  have k: "ToString (getProp ?b (str ''userId'')) = Inr (str ''u1'')" by (simp add: getProp_def)
  have a: "getSlot (conversationHistory initialServer) (str ''u1'') = Absent"
    by (simp add: getSlot_def initialServer_def objectPrototypeKeys_def)
  have o: "getSlot (conversationHistory ?s) (str ''u1'') \<noteq> Absent"
    by (simp add: getSlot_def)
  from reset_history_scoped [OF t k, of initialServer, THEN conjunct1] a
  have w1: "reset_history ?b initialServer = (Responded (errorOnly 404 ''User not found''), initialServer)"
    by simp
  from reset_history_scoped [OF t k, of ?s, THEN conjunct2] o
  have w2: "reset_history ?b ?s =
     (Responded (ok [(str ''message'', JStr (str ''History reset for user: u1''))]),
      ?s\<lparr>conversationHistory := [str ''u1'' \<mapsto> []](str ''u1'' := None)\<rparr>)"
    by simp
  from w1 w2 show ?thesis by (rule conjI)
qed

text \<open>
  /reset-history tests \<^verbatim>\<open>conversationHistory[userId]\<close>, which also finds what the store
  object inherits: a reset for the user \<open>constructor\<close> is answered with status 200 on the
  empty store.
\<close>

lemma reset_history_inherited_key:
  "reset_history [(str ''userId'', JStr (str ''constructor''))] initialServer =
     (Responded \<lparr>status = 200,
        body = JObj [(str ''message'', JStr (str ''History reset for user: constructor''))]\<rparr>,
      initialServer)"
  by (simp add: route_defs example_defs ok_def)

subsection \<open>/roleplay served alone: success and failure\<close>

text \<open>
  Claim C3, as the code has it: when /roleplay answers 200, the body is
  \<open>{roleplayResponse: o}\<close> where \<open>o\<close> is the object \<open>JSON.parse\<close> returned for the text
  the pattern matched in the model's reply. The handler passes \<open>o\<close> on unchecked, so the
  fields under \<open>roleplayResponse\<close> are exactly the fields of the model's object.
\<close>

theorem roleplay_success_body:
  assumes "roleplay parse model reqBody s = (Responded r, s')" and "status r = 200"
  shows "\<exists>t j aiResponse. model (modelCalls s) = Text t \<and> regex_match t = Some j
           \<and> parse j = Inr aiResponse
           \<and> body r = JObj [(str ''roleplayResponse'', JObj aiResponse)]
           \<and> (\<forall>f. hasField (getMember (body r) (str ''roleplayResponse'')) f
                    \<longleftrightarrow> f \<in> fst ` set aiResponse)"
  using roleplay_cases [OF assms(1)] assms(2)
  by (auto simp: hasField_def getProp_def)

text \<open>
  Claim C4: take a /roleplay request that passes validation and reaches the call of the
  model (the user identifier converts to a key that does not name an inherited member, and
  the scenario and the message convert to strings). If the call fails with message \<open>e\<close>,
  or the reply has no match of the pattern (then \<open>e\<close> is the handler's own message), or
  \<open>JSON.parse\<close> throws \<open>e\<close> on the match, the handler answers 500 with \<open>details = e\<close>,
  and the model has been called exactly once: there is no second attempt.
\<close>

theorem roleplay_failure_500:
  assumes "truthy (getProp reqBody (str ''userId''))"
    and "truthy (getProp reqBody (str ''scenario''))"
    and "truthy (getProp reqBody (str ''message''))"
    and "ToString (getProp reqBody (str ''userId'')) = Inr key"
    and "getSlot (conversationHistory s) key \<noteq> Inherited"
    and "ToString (getProp reqBody (str ''scenario'')) = Inr t1"
    and "ToString (getProp reqBody (str ''message'')) = Inr t2"
    and "model (modelCalls s) = Fails e
         \<or> (\<exists>t. model (modelCalls s) = Text t
               \<and> (regex_match t = None \<and> e = str ''Invalid JSON response from AI''
                    \<or> (\<exists>j. regex_match t = Some j \<and> parse j = Inl e)))"
  shows "\<exists>r s'. roleplay parse model reqBody s = (Responded r, s') \<and> status r = 500
           \<and> getMember (body r) (str ''details'') = JStr e
           \<and> modelCalls s' = Suc (modelCalls s)"
proof -
  let ?u = "userMessage (getProp reqBody (str ''message''))"
  let ?h = "(conversationHistory s)(key \<mapsto> entriesOf (conversationHistory s) key @ [?u])"
  let ?s1 = "s\<lparr>conversationHistory := ?h, modelCalls := Suc (modelCalls s)\<rparr>"
  from assms(5) have h: "push (initHistory (conversationHistory s) key) key ?u = Inr ?h"
    by (rule push_init_Inr)
  have st: "roleplay_start reqBody s = (Awaiting (key, modelCalls s), ?s1)"
    using assms(1-4,6,7) h
    by (simp add: roleplay_start_def roleplay_prompt_def suspend_def generateContent_def)
  have "roleplay_resume parse key (model (modelCalls s)) ?s1 = (Inl e, ?s1)"
    using assms(8) by (auto simp: roleplay_resume_def invalidJSON_def)
  with st have "roleplay parse model reqBody s = (Responded (aiModelError e), ?s1)"
    by (simp add: roleplay_def catch_def)
  then show ?thesis by simp
qed

theorem roleplay_failure_500_witness:
  "(\<exists>r s'. roleplay exampleParse (\<lambda>n. Fails (str ''quota exceeded'')) exampleRoleplay initialServer =
        (Responded r, s') \<and> status r = 500
      \<and> getMember (body r) (str ''details'') = JStr (str ''quota exceeded'') \<and> modelCalls s' = 1)
   \<and> (\<exists>r s'. roleplay exampleParse (\<lambda>n. if n = 0 then Text (str ''no object here'') else Text (str ''{}''))
          exampleRoleplay initialServer = (Responded r, s') \<and> status r = 500
      \<and> getMember (body r) (str ''details'') = JStr (str ''Invalid JSON response from AI'')
      \<and> modelCalls s' = 1)
   \<and> (\<exists>r s'. roleplay exampleParse (\<lambda>n. Text (str ''{oops}'')) exampleRoleplay initialServer =
        (Responded r, s') \<and> status r = 500
      \<and> getMember (body r) (str ''details'') = JStr (str ''Unexpected token'') \<and> modelCalls s' = 1)"
proof -
  have v: "truthy (getProp exampleRoleplay (str ''userId''))"
      "truthy (getProp exampleRoleplay (str ''scenario''))"
      "truthy (getProp exampleRoleplay (str ''message''))"
    by (simp_all add: exampleRoleplay_def getProp_def)
  have k: "ToString (getProp exampleRoleplay (str ''userId'')) = Inr (str ''u1'')"
    by (simp add: exampleRoleplay_def getProp_def)
  have g: "getSlot (conversationHistory initialServer) (str ''u1'') \<noteq> Inherited"
    by (simp add: initialServer_def getSlot_def objectPrototypeKeys_def)
  have p: "ToString (getProp exampleRoleplay (str ''scenario'')) = Inr (str ''cafe'')"
      "ToString (getProp exampleRoleplay (str ''message'')) = Inr (str ''hello'')"
    by (simp_all add: exampleRoleplay_def getProp_def)
  have m0: "modelCalls initialServer = 0" by (simp add: initialServer_def)
  have r2: "regex_match (str ''no object here'') = None"
    by (simp add: str_def codeUnit_def lbrace_def rbrace_def)
  have r3: "regex_match (str ''{oops}'') = Some (str ''{oops}'')"
    by (simp add: str_def codeUnit_def lbrace_def rbrace_def)
  have p3: "exampleParse (str ''{oops}'') = Inl (str ''Unexpected token'')"
    by (simp add: exampleParse_def parseTable_def exampleJSON_def)
  have a: "\<exists>r s'. roleplay exampleParse (\<lambda>n. Fails (str ''quota exceeded'')) exampleRoleplay initialServer =
        (Responded r, s') \<and> status r = 500
      \<and> getMember (body r) (str ''details'') = JStr (str ''quota exceeded'') \<and> modelCalls s' = 1"
    using roleplay_failure_500 [OF v k g p, of "\<lambda>n. Fails (str ''quota exceeded'')"
        "str ''quota exceeded''" exampleParse] m0
    by simp
  have b: "\<exists>r s'. roleplay exampleParse (\<lambda>n. if n = 0 then Text (str ''no object here'') else Text (str ''{}''))
          exampleRoleplay initialServer = (Responded r, s') \<and> status r = 500
      \<and> getMember (body r) (str ''details'') = JStr (str ''Invalid JSON response from AI'')
      \<and> modelCalls s' = 1"
    using roleplay_failure_500 [OF v k g p,
        of "\<lambda>n. if n = 0 then Text (str ''no object here'') else Text (str ''{}'')"
        "str ''Invalid JSON response from AI''" exampleParse] m0 r2
    by simp
  have c: "\<exists>r s'. roleplay exampleParse (\<lambda>n. Text (str ''{oops}'')) exampleRoleplay initialServer =
        (Responded r, s') \<and> status r = 500
      \<and> getMember (body r) (str ''details'') = JStr (str ''Unexpected token'') \<and> modelCalls s' = 1"
    using roleplay_failure_500 [OF v k g p, of "\<lambda>n. Text (str ''{oops}'')"
        "str ''Unexpected token''" exampleParse] m0 r3 p3
    by simp
  from a b c show ?thesis by blast
qed

lemma regex_exampleReply: "regex_match exampleReply = Some (str exampleJSON)"
  by (simp add: exampleReply_def exampleJSON_def str_def codeUnit_def lbrace_def rbrace_def)

lemma parse_exampleJSON:
  "exampleParse (str exampleJSON) =
     Inr [(str ''response'', JStr (str ''Hi'')), (str ''correction'', JStr (str ''Hello''))]"
  by (simp add: exampleParse_def parseTable_def exampleJSON_def)

lemma roleplay_example_run:
  "roleplay exampleParse (\<lambda>n. Text exampleReply) exampleRoleplay initialServer =
     (Responded \<lparr>status = 200,
        body = JObj [(str ''roleplayResponse'',
                 JObj [(str ''response'', JStr (str ''Hi'')), (str ''correction'', JStr (str ''Hello''))])]\<rparr>,
      \<lparr>conversationHistory =
         [str ''u1'' \<mapsto> [userMessage (JStr (str ''hello'')), aiMessage (JStr (str ''Hi''))]],
       therapistHistory = Map.empty, modelCalls = 1\<rparr>)"
  by (simp add: route_defs ok_def exampleRoleplay_def initialServer_def regex_exampleReply
      parse_exampleJSON)

theorem roleplay_success_body_witness:
  "\<exists>t j aiResponse. Text exampleReply = Text t \<and> regex_match t = Some j
       \<and> exampleParse j = Inr aiResponse
       \<and> JObj [(str ''roleplayResponse'',
                 JObj [(str ''response'', JStr (str ''Hi'')), (str ''correction'', JStr (str ''Hello''))])]
           = JObj [(str ''roleplayResponse'', JObj aiResponse)]"
proof -
  have st: "status \<lparr>status = 200,
        body = JObj [(str ''roleplayResponse'',
                 JObj [(str ''response'', JStr (str ''Hi'')), (str ''correction'', JStr (str ''Hello''))])]\<rparr> = 200"
    by simp
  from roleplay_success_body [OF roleplay_example_run st] show ?thesis
    by auto
qed

text \<open>
  The claim C3 as written fails: when the model replies \<open>{}\<close>, the request succeeds with
  \<open>{roleplayResponse: {}}\<close>, which has neither a \<open>response\<close> nor a \<open>correction\<close> field
  (and the entry stored for the AI has the message \<open>undefined\<close>).
\<close>

theorem roleplay_empty_object:
  "roleplay exampleParse (\<lambda>n. Text (str ''{}'')) exampleRoleplay initialServer =
     (Responded \<lparr>status = 200, body = JObj [(str ''roleplayResponse'', JObj [])]\<rparr>,
      \<lparr>conversationHistory =
         [str ''u1'' \<mapsto> [userMessage (JStr (str ''hello'')), aiMessage JUndefined]],
       therapistHistory = Map.empty, modelCalls = 1\<rparr>)
   \<and> \<not> hasField (JObj []) (str ''response'') \<and> \<not> hasField (JObj []) (str ''correction'')"
proof -
  have r: "regex_match (str ''{}'') = Some (str ''{}'')"
    by (simp add: str_def codeUnit_def lbrace_def rbrace_def)
  have p: "exampleParse (str ''{}'') = Inr []"
    by (simp add: exampleParse_def parseTable_def)
  show ?thesis
    by (simp add: route_defs ok_def exampleRoleplay_def initialServer_def r p hasField_def)
qed

subsection \<open>The two stores, for a request served alone\<close>

lemma roleplay_uncaught: "roleplay parse model reqBody s = (Uncaught e, s') \<Longrightarrow> s' = s"
proof -
  assume r: "roleplay parse model reqBody s = (Uncaught e, s')"
  obtain p s1 where st: "roleplay_start reqBody s = (p, s1)"
    by (cases "roleplay_start reqBody s")
  show "s' = s"
  proof (cases p)
    case (Done out)
    with st r roleplay_start_cases [OF st] show ?thesis by (auto simp: roleplay_def)
  next
    case (Awaiting a)
    with st r show ?thesis
      by (cases a) (simp add: roleplay_def catch_not_uncaught)
  qed
qed

lemma therapist_chat_uncaught: "therapist_chat model reqBody s = (Uncaught e, s') \<Longrightarrow> s' = s"
proof -
  assume r: "therapist_chat model reqBody s = (Uncaught e, s')"
  obtain p s1 where st: "therapist_start reqBody s = (p, s1)"
    by (cases "therapist_start reqBody s")
  show "s' = s"
  proof (cases p)
    case (Done out)
    with st r therapist_start_cases [OF st] show ?thesis by (auto simp: therapist_chat_def)
  next
    case (Awaiting a)
    with st r show ?thesis
      by (cases a) (simp add: therapist_chat_def catch_not_uncaught)
  qed
qed

lemma sentence_state:
  assumes "(case sentence_start reqBody s of
              (Done out, s1) \<Rightarrow> (out, s1)
            | (Awaiting n, s1) \<Rightarrow> catch (sentence_resume k (model n) s1)) = (out, s')"
  shows "conversationHistory s' = conversationHistory s \<and> therapistHistory s' = therapistHistory s"
proof -
  obtain p s1 where st: "sentence_start reqBody s = (p, s1)"
    by (cases "sentence_start reqBody s")
  from sentence_start_cases [OF st]
  have s1: "conversationHistory s1 = conversationHistory s \<and> therapistHistory s1 = therapistHistory s"
    by auto
  show ?thesis
  proof (cases p)
    case (Done o1)
    with st assms s1 show ?thesis by simp
  next
    case (Awaiting n)
    with st assms have c: "catch (sentence_resume k (model n) s1) = (out, s')" by simp
    obtain res s2 where r: "sentence_resume k (model n) s1 = (res, s2)"
      by (cases "sentence_resume k (model n) s1")
    from sentence_resume_cases [OF r] have "s2 = s1" by simp
    with catch_state [OF c] r have "s' = s1" by simp
    with s1 show ?thesis by simp
  qed
qed

lemma correct_grammar_state:
  "correct_grammar model reqBody s = (out, s') \<Longrightarrow>
   conversationHistory s' = conversationHistory s \<and> therapistHistory s' = therapistHistory s"
  unfolding correct_grammar_def by (rule sentence_state)

lemma auto_complete_state:
  "auto_complete model reqBody s = (out, s') \<Longrightarrow>
   conversationHistory s' = conversationHistory s \<and> therapistHistory s' = therapistHistory s"
  unfolding auto_complete_def by (rule sentence_state)

text \<open>One request of /roleplay: the other store is untouched and every sequence is extended.\<close>

lemma roleplay_state:
  assumes "roleplay parse model reqBody s = (out, s')"
  shows "therapistHistory s' = therapistHistory s"
    and "conversationHistory s k = Some xs \<Longrightarrow> \<exists>ys. conversationHistory s' k = Some (xs @ ys)"
proof -
  show "therapistHistory s' = therapistHistory s"
  proof (cases out)
    case (Responded r)
    with assms roleplay_cases [of parse model reqBody s r s'] show ?thesis by auto
  next
    case (Uncaught e)
    with assms roleplay_uncaught show ?thesis by blast
  qed
  assume k: "conversationHistory s k = Some xs"
  show "\<exists>ys. conversationHistory s' k = Some (xs @ ys)"
  proof (cases out)
    case (Responded r)
    with assms roleplay_cases [of parse model reqBody s r s'] k show ?thesis
      by (auto simp: entriesOf_def)
  next
    case (Uncaught e)
    with assms roleplay_uncaught k show ?thesis by fastforce
  qed
qed

lemma therapist_chat_state:
  assumes "therapist_chat model reqBody s = (out, s')"
  shows "conversationHistory s' = conversationHistory s"
    and "therapistHistory s k = Some xs \<Longrightarrow> \<exists>ys. therapistHistory s' k = Some (xs @ ys)"
proof -
  show "conversationHistory s' = conversationHistory s"
  proof (cases out)
    case (Responded r)
    with assms therapist_chat_cases [of model reqBody s r s'] show ?thesis by auto
  next
    case (Uncaught e)
    with assms therapist_chat_uncaught show ?thesis by blast
  qed
  assume k: "therapistHistory s k = Some xs"
  show "\<exists>ys. therapistHistory s' k = Some (xs @ ys)"
  proof (cases out)
    case (Responded r)
    with assms therapist_chat_cases [of model reqBody s r s'] k show ?thesis
      by (auto simp: entriesOf_def)
  next
    case (Uncaught e)
    with assms therapist_chat_uncaught k show ?thesis by fastforce
  qed
qed

lemma reset_history_state:
  assumes "reset_history reqBody s = (out, s')"
  shows "therapistHistory s' = therapistHistory s"
    and "truthy (getProp reqBody (str ''userId'')) \<Longrightarrow>
         ToString (getProp reqBody (str ''userId'')) = Inr key \<Longrightarrow> k \<noteq> key \<Longrightarrow>
         conversationHistory s' k = conversationHistory s k"
  using assms by (auto simp: reset_history_def Let_def split: if_splits sum.splits)

lemma therapist_reset_state:
  assumes "therapist_reset reqBody s = (out, s')"
  shows "conversationHistory s' = conversationHistory s"
    and "truthy (getProp reqBody (str ''userId'')) \<Longrightarrow>
         ToString (getProp reqBody (str ''userId'')) = Inr key \<Longrightarrow> k \<noteq> key \<Longrightarrow>
         therapistHistory s' k = therapistHistory s k"
  using assms by (auto simp: therapist_reset_def Let_def split: if_splits sum.splits)

lemma stores_frame_therapist:
  assumes "dispatch parse model route reqBody s = (out, s')"
    and "route \<noteq> TherapistChat" and "route \<noteq> TherapistReset"
  shows "therapistHistory s' = therapistHistory s"
proof (cases route)
  case CorrectGrammar
  with assms correct_grammar_state show ?thesis by simp
next
  case AutoComplete
  with assms auto_complete_state show ?thesis by simp
next
  case Roleplay
  with assms roleplay_state(1) show ?thesis by simp
next
  case ResetHistory
  with assms reset_history_state(1) show ?thesis by simp
next
  case TherapistChat
  with assms show ?thesis by simp
next
  case TherapistReset
  with assms show ?thesis by simp
qed

lemma stores_frame_conversation:
  assumes "dispatch parse model route reqBody s = (out, s')"
    and "route \<noteq> Roleplay" and "route \<noteq> ResetHistory"
  shows "conversationHistory s' = conversationHistory s"
proof (cases route)
  case CorrectGrammar
  with assms correct_grammar_state show ?thesis by simp
next
  case AutoComplete
  with assms auto_complete_state show ?thesis by simp
next
  case Roleplay
  with assms show ?thesis by simp
next
  case ResetHistory
  with assms show ?thesis by simp
next
  case TherapistChat
  with assms therapist_chat_state(1) show ?thesis by simp
next
  case TherapistReset
  with assms therapist_reset_state(1) show ?thesis by simp
qed

text \<open>
  Claim C8: only the therapist routes change the therapist store and only /roleplay and
  /reset-history change the roleplay store; a scoped reset (a truthy \<open>userId\<close>, converted
  to \<open>key\<close>) leaves the history of every other key as it was.
\<close>

theorem stores_independent:
  assumes "dispatch parse model route reqBody s = (out, s')"
  shows "(route \<noteq> TherapistChat \<and> route \<noteq> TherapistReset \<longrightarrow>
            therapistHistory s' = therapistHistory s)
       \<and> (route \<noteq> Roleplay \<and> route \<noteq> ResetHistory \<longrightarrow>
            conversationHistory s' = conversationHistory s)
       \<and> (route = ResetHistory \<and> truthy (getProp reqBody (str ''userId''))
            \<and> ToString (getProp reqBody (str ''userId'')) = Inr key \<and> k \<noteq> key \<longrightarrow>
            conversationHistory s' k = conversationHistory s k)
       \<and> (route = TherapistReset \<and> truthy (getProp reqBody (str ''userId''))
            \<and> ToString (getProp reqBody (str ''userId'')) = Inr key \<and> k \<noteq> key \<longrightarrow>
            therapistHistory s' k = therapistHistory s k)"
proof (cases route)
  case CorrectGrammar
  with assms correct_grammar_state show ?thesis by simp
next
  case AutoComplete
  with assms auto_complete_state show ?thesis by simp
next
  case Roleplay
  with assms roleplay_state(1) show ?thesis by simp
next
  case ResetHistory
  with assms reset_history_state [of reqBody s out s'] show ?thesis by simp
next
  case TherapistChat
  with assms therapist_chat_state(1) show ?thesis by simp
next
  case TherapistReset
  with assms therapist_reset_state [of reqBody s out s'] show ?thesis by simp
qed

theorem stores_independent_witness:
  "reset_history [(str ''userId'', JStr (str ''u1''))]
      \<lparr>conversationHistory = [str ''u1'' \<mapsto> [userMessage (JStr (str ''hello''))],
                               str ''u2'' \<mapsto> [userMessage (JStr (str ''bye''))]],
       therapistHistory = [str ''u1'' \<mapsto> [userContent (JStr (str ''hello''))]],
       modelCalls = 2\<rparr> =
     (Responded (ok [(str ''message'', JStr (str ''History reset for user: u1''))]),
      \<lparr>conversationHistory = [str ''u2'' \<mapsto> [userMessage (JStr (str ''bye''))]],
       therapistHistory = [str ''u1'' \<mapsto> [userContent (JStr (str ''hello''))]],
       modelCalls = 2\<rparr>)
   \<and> [str ''u2'' \<mapsto> [userMessage (JStr (str ''bye''))]] (str ''u2'') =
       [str ''u1'' \<mapsto> [userMessage (JStr (str ''hello''))],
        str ''u2'' \<mapsto> [userMessage (JStr (str ''bye''))]] (str ''u2'')"
proof -
  let ?b = "[(str ''userId'', JStr (str ''u1''))]"
  let ?s = "\<lparr>conversationHistory = [str ''u1'' \<mapsto> [userMessage (JStr (str ''hello''))],
                               str ''u2'' \<mapsto> [userMessage (JStr (str ''bye''))]],
       therapistHistory = [str ''u1'' \<mapsto> [userContent (JStr (str ''hello''))]],
       modelCalls = 2\<rparr>"
  let ?s' = "\<lparr>conversationHistory = [str ''u2'' \<mapsto> [userMessage (JStr (str ''bye''))]],
       therapistHistory = [str ''u1'' \<mapsto> [userContent (JStr (str ''hello''))]],
       modelCalls = 2\<rparr>"
  let ?out = "Responded (ok [(str ''message'', JStr (str ''History reset for user: u1''))])"
  have run: "reset_history ?b ?s = (?out, ?s')"
    by (auto simp: reset_history_def getProp_def Let_def getSlot_def fun_eq_iff)
  then have d: "dispatch exampleParse (\<lambda>n. Text []) ResetHistory ?b ?s = (?out, ?s')"
    by simp
  have t: "truthy (getProp ?b (str ''userId''))" by (simp add: getProp_def)
  have k: "ToString (getProp ?b (str ''userId'')) = Inr (str ''u1'')" by (simp add: getProp_def)
  have ne: "str ''u2'' \<noteq> str ''u1''" by simp
  from stores_independent [OF d, of "str ''u1''" "str ''u2''"] t k ne
  have "conversationHistory ?s' (str ''u2'') = conversationHistory ?s (str ''u2'')"
    by simp
  with run show ?thesis by simp
qed

subsection \<open>Requests in flight together\<close>

text \<open>
  A request served alone is the event of its arrival followed at once by the settling of
  its call.
\<close>

lemma dispatch_alone:
  "dispatch parse model route reqBody s =
     (case start route reqBody s of
        (Done out, s1) \<Rightarrow> (out, s1)
      | (Awaiting p, s1) \<Rightarrow> resume parse p (model (callOf p)) s1)"
  by (cases route)
    (auto simp: correct_grammar_def auto_complete_def roleplay_def therapist_chat_def
      split: prod.splits progress.splits)

lemma events_alone:
  assumes "waiting sys = []"
  shows "events parse model [Arrive route reqBody, Settle 0] sys =
         sys\<lparr>srv := snd (dispatch parse model route reqBody (srv sys)),
             sent := sent sys @ [fst (dispatch parse model route reqBody (srv sys))]\<rparr>"
  using assms
  by (auto simp: events_def dispatch_alone split: prod.splits progress.splits)










text \<open>The second part, when the reply parses and the user's array is in the store.\<close>

lemma roleplay_resume_success:
  assumes "regex_match t = Some j" and "parse j = Inr aiResponse"
    and "conversationHistory s key = Some xs"
  shows "roleplay_resume parse key (Text t) s =
         (Inr (ok [(str ''roleplayResponse'', JObj aiResponse)]),
          s\<lparr>conversationHistory := (conversationHistory s)
               (key \<mapsto> xs @ [aiMessage (getProp aiResponse (str ''response''))])\<rparr>)"
  using assms by (simp add: roleplay_resume_def push_own)

lemma therapist_resume_success:
  assumes "therapistHistory s key = Some xs"
  shows "therapist_resume key (Text t) s =
         (Inr (ok [(str ''therapistResponse'', JStr (trim t))]),
          s\<lparr>therapistHistory := (therapistHistory s)(key \<mapsto> xs @ [aiContent (trim t)])\<rparr>)"
  using assms by (simp add: therapist_resume_def push_own Let_def)


lemma sequence_Inr_map:
  "(\<And>x. x \<in> set xs \<Longrightarrow> \<exists>y. f x = Inr y) \<Longrightarrow> \<exists>ys. sequence (map f xs) = Inr ys"
proof (induction xs)
  case Nil
  then show ?case by simp
next
  case (Cons x xs)
  then obtain y ys where "f x = Inr y" "sequence (map f xs) = Inr ys" by fastforce
  then show ?case by simp
qed

lemma therapist_alone_success:
  assumes "truthy (getProp reqBody (str ''userId''))"
    and "truthy (getProp reqBody (str ''message''))"
    and "ToString (getProp reqBody (str ''userId'')) = Inr key"
    and "getSlot (therapistHistory s) key \<noteq> Inherited"
    and "\<And>msg. msg \<in> set (entriesOf (therapistHistory s) key) \<Longrightarrow>
           \<exists>c. ToString (getMember msg (str ''content'')) = Inr c"
    and "ToString (getProp reqBody (str ''message'')) = Inr t2"
    and "model (modelCalls s) = Text t"
  shows "therapist_chat model reqBody s =
         (Responded (ok [(str ''therapistResponse'', JStr (trim t))]),
          s\<lparr>therapistHistory := (therapistHistory s)
               (key \<mapsto> entriesOf (therapistHistory s) key @
                  [userContent (getProp reqBody (str ''message'')), aiContent (trim t)]),
            modelCalls := Suc (modelCalls s)\<rparr>)"
proof -
  let ?u = "userContent (getProp reqBody (str ''message''))"
  let ?old = "entriesOf (therapistHistory s) key"
  let ?h = "(therapistHistory s)(key \<mapsto> ?old @ [?u])"
  let ?s1 = "s\<lparr>therapistHistory := ?h, modelCalls := Suc (modelCalls s)\<rparr>"
  from assms(4) have h: "push (initHistory (therapistHistory s) key) key ?u = Inr ?h"
    by (rule push_init_Inr)
  have "\<And>msg. msg \<in> set (?old @ [?u]) \<Longrightarrow> \<exists>c. ToString (getMember msg (str ''content'')) = Inr c"
    using assms(5,6) by (auto simp: userContent_def getProp_def)
  then obtain cs where cs: "sequence (map (\<lambda>msg. ToString (getMember msg (str ''content'')))
                              (?old @ [?u])) = Inr cs"
    using sequence_Inr_map [of "?old @ [?u]" "\<lambda>msg. ToString (getMember msg (str ''content''))"]
    by blast
  have pr: "therapist_prompt key (getProp reqBody (str ''message'')) (s\<lparr>therapistHistory := ?h\<rparr>) =
            (Inr (modelCalls s), ?s1)"
    using cs assms(6) by (simp add: therapist_prompt_def getSlot_def generateContent_def)
  have st: "therapist_start reqBody s = (Awaiting (key, modelCalls s), ?s1)"
    using assms(1-3) h pr by (simp add: therapist_start_def suspend_def Let_def)
  have own: "therapistHistory ?s1 key = Some (?old @ [?u])" by simp
  have "therapist_resume key (Text t) ?s1 =
         (Inr (ok [(str ''therapistResponse'', JStr (trim t))]),
          ?s1\<lparr>therapistHistory := (therapistHistory ?s1)
               (key \<mapsto> (?old @ [?u]) @ [aiContent (trim t)])\<rparr>)"
    using own by (rule therapist_resume_success)
  with st assms(7) show ?thesis
    by (simp add: therapist_chat_def catch_def)
qed

subsection \<open>What /roleplay passes to the parser\<close>

lemma roleplay_resume_parse_cong:
  assumes "regex_match t = Some j" and "parse' j = parse j"
  shows "roleplay_resume parse' key (Text t) s = roleplay_resume parse key (Text t) s"
  using assms by (simp add: roleplay_resume_def)

lemma roleplay_resume_no_match:
  assumes "regex_match t = None"
  shows "roleplay_resume parse key (Text t) s = (Inl invalidJSON, s)"
  using assms by (simp add: roleplay_resume_def)

lemma roleplay_parse_cong:
  assumes "model (modelCalls s) = Text t"
    and "regex_match t = None \<or> (\<exists>j. regex_match t = Some j \<and> parse' j = parse j)"
  shows "roleplay parse' model reqBody s = roleplay parse model reqBody s"
proof -
  obtain p s1 where st: "roleplay_start reqBody s = (p, s1)"
    by (cases "roleplay_start reqBody s")
  show ?thesis
  proof (cases p)
    case (Done out)
    with st show ?thesis by (simp add: roleplay_def)
  next
    case (Awaiting a)
    obtain key n where a: "a = (key, n)" by (cases a)
    from roleplay_start_cases [OF st] Awaiting a have "n = modelCalls s" by auto
    with assms(1) have m: "model n = Text t" by simp
    from assms(2) have "roleplay_resume parse' key (Text t) s1 = roleplay_resume parse key (Text t) s1"
    proof
      assume "regex_match t = None"
      then show ?thesis by (simp add: roleplay_resume_no_match)
    next
      assume "\<exists>j. regex_match t = Some j \<and> parse' j = parse j"
      then obtain j where "regex_match t = Some j" "parse' j = parse j" by blast
      then show ?thesis by (rule roleplay_resume_parse_cong)
    qed
    with st Awaiting a m show ?thesis by (simp add: roleplay_def)
  qed
qed

text \<open>
  Claim C6: in the /roleplay route the text given to the parser is the substring of the
  model's reply from the first \<open>{\<close> to the last \<open>}\<close>, found by the pattern. For the part
  of the handler that runs on the reply \<open>t\<close>: when \<open>t\<close> has no such substring the
  extraction fails, the parser is not consulted and the answer is 500 with the handler's
  own message; when the substring is \<open>j\<close>, the answer is decided by \<open>parse j\<close> (500 with
  the parser's message, or 200 with the parsed object under \<open>roleplayResponse\<close>), and two
  parsers that agree on \<open>j\<close> give the same result, also for the whole request served
  alone.
\<close>

theorem roleplay_parses_first_to_last:
  "(first_to_last_brace t = None \<longrightarrow>
      resume parse (AwaitRoleplay key n) (Text t) s =
        (Responded \<lparr>status = 500,
           body = JObj [(str ''error'', JStr (str ''AI model error'')),
                        (str ''details'', JStr (str ''Invalid JSON response from AI''))]\<rparr>, s))
   \<and> (first_to_last_brace t = Some j \<and> parse j = Inl e \<longrightarrow>
      resume parse (AwaitRoleplay key n) (Text t) s =
        (Responded \<lparr>status = 500,
           body = JObj [(str ''error'', JStr (str ''AI model error'')),
                        (str ''details'', JStr e)]\<rparr>, s))
   \<and> (first_to_last_brace t = Some j \<and> parse j = Inr aiResponse
        \<and> conversationHistory s key = Some xs \<longrightarrow>
      resume parse (AwaitRoleplay key n) (Text t) s =
        (Responded \<lparr>status = 200, body = JObj [(str ''roleplayResponse'', JObj aiResponse)]\<rparr>,
         s\<lparr>conversationHistory := (conversationHistory s)
              (key \<mapsto> xs @ [JObj [(str ''role'', JStr (str ''ai'')),
                                 (str ''message'', getProp aiResponse (str ''response''))]])\<rparr>))
   \<and> (first_to_last_brace t = Some j \<and> parse' j = parse j \<longrightarrow>
      resume parse' (AwaitRoleplay key n) (Text t) s = resume parse (AwaitRoleplay key n) (Text t) s)
   \<and> (model (modelCalls s0) = Text t
        \<and> (first_to_last_brace t = None \<or> first_to_last_brace t = Some j \<and> parse' j = parse j) \<longrightarrow>
      roleplay parse' model reqBody s0 = roleplay parse model reqBody s0)"
proof (intro conjI impI)
  assume "first_to_last_brace t = None"
  then have "regex_match t = None" by (simp add: regex_match_first_to_last)
  then show "resume parse (AwaitRoleplay key n) (Text t) s =
        (Responded \<lparr>status = 500,
           body = JObj [(str ''error'', JStr (str ''AI model error'')),
                        (str ''details'', JStr (str ''Invalid JSON response from AI''))]\<rparr>, s)"
    by (simp add: roleplay_resume_no_match catch_def aiModelError_def invalidJSON_def)
next
  assume "first_to_last_brace t = Some j \<and> parse j = Inl e"
  then have "regex_match t = Some j" "parse j = Inl e"
    by (simp_all add: regex_match_first_to_last)
  then show "resume parse (AwaitRoleplay key n) (Text t) s =
        (Responded \<lparr>status = 500,
           body = JObj [(str ''error'', JStr (str ''AI model error'')),
                        (str ''details'', JStr e)]\<rparr>, s)"
    by (simp add: roleplay_resume_def catch_def aiModelError_def)
next
  assume "first_to_last_brace t = Some j \<and> parse j = Inr aiResponse
        \<and> conversationHistory s key = Some xs"
  then have "regex_match t = Some j" "parse j = Inr aiResponse" "conversationHistory s key = Some xs"
    by (simp_all add: regex_match_first_to_last)
  then have "roleplay_resume parse key (Text t) s =
         (Inr (ok [(str ''roleplayResponse'', JObj aiResponse)]),
          s\<lparr>conversationHistory := (conversationHistory s)
               (key \<mapsto> xs @ [aiMessage (getProp aiResponse (str ''response''))])\<rparr>)"
    by (rule roleplay_resume_success)
  then show "resume parse (AwaitRoleplay key n) (Text t) s =
        (Responded \<lparr>status = 200, body = JObj [(str ''roleplayResponse'', JObj aiResponse)]\<rparr>,
         s\<lparr>conversationHistory := (conversationHistory s)
              (key \<mapsto> xs @ [JObj [(str ''role'', JStr (str ''ai'')),
                                 (str ''message'', getProp aiResponse (str ''response''))]])\<rparr>)"
    by (simp add: catch_def ok_def aiMessage_def)
next
  assume "first_to_last_brace t = Some j \<and> parse' j = parse j"
  then have "regex_match t = Some j" "parse' j = parse j"
    by (simp_all add: regex_match_first_to_last)
  then have "roleplay_resume parse' key (Text t) s = roleplay_resume parse key (Text t) s"
    by (rule roleplay_resume_parse_cong)
  then show "resume parse' (AwaitRoleplay key n) (Text t) s =
             resume parse (AwaitRoleplay key n) (Text t) s"
    by simp
next
  assume a: "model (modelCalls s0) = Text t
        \<and> (first_to_last_brace t = None \<or> first_to_last_brace t = Some j \<and> parse' j = parse j)"
  then have "regex_match t = None \<or> (\<exists>j. regex_match t = Some j \<and> parse' j = parse j)"
    by (auto simp: regex_match_first_to_last)
  with a show "roleplay parse' model reqBody s0 = roleplay parse model reqBody s0"
    by (intro roleplay_parse_cong [of model s0 t]) simp_all
qed

lemma first_to_last_exampleReply: "first_to_last_brace exampleReply = Some (str exampleJSON)"
  using regex_exampleReply by (simp add: regex_match_first_to_last)

theorem roleplay_parses_first_to_last_witness:
  "resume exampleParse (AwaitRoleplay (str ''u1'') 0) (Text exampleReply)
      \<lparr>conversationHistory = [str ''u1'' \<mapsto> [userMessage (JStr (str ''hello''))]],
       therapistHistory = Map.empty, modelCalls = 1\<rparr> =
     (Responded \<lparr>status = 200,
        body = JObj [(str ''roleplayResponse'',
                 JObj [(str ''response'', JStr (str ''Hi'')), (str ''correction'', JStr (str ''Hello''))])]\<rparr>,
      \<lparr>conversationHistory =
         [str ''u1'' \<mapsto> [userMessage (JStr (str ''hello'')),
                          JObj [(str ''role'', JStr (str ''ai'')), (str ''message'', JStr (str ''Hi''))]]],
       therapistHistory = Map.empty, modelCalls = 1\<rparr>)
   \<and> resume exampleParse (AwaitRoleplay (str ''u1'') 0) (Text (str ''} no {''))
      \<lparr>conversationHistory = [str ''u1'' \<mapsto> [userMessage (JStr (str ''hello''))]],
       therapistHistory = Map.empty, modelCalls = 1\<rparr> =
     (Responded \<lparr>status = 500,
        body = JObj [(str ''error'', JStr (str ''AI model error'')),
                     (str ''details'', JStr (str ''Invalid JSON response from AI''))]\<rparr>,
      \<lparr>conversationHistory = [str ''u1'' \<mapsto> [userMessage (JStr (str ''hello''))]],
       therapistHistory = Map.empty, modelCalls = 1\<rparr>)"
proof -
  let ?s = "\<lparr>conversationHistory = [str ''u1'' \<mapsto> [userMessage (JStr (str ''hello''))]],
       therapistHistory = Map.empty, modelCalls = 1\<rparr>"
  have own: "conversationHistory ?s (str ''u1'') = Some [userMessage (JStr (str ''hello''))]"
    by simp
  have none: "first_to_last_brace (str ''} no {'') = None"
    using regex_match_examples(2) by (simp add: regex_match_first_to_last)
  note w1 = roleplay_parses_first_to_last [where t = exampleReply and j = "str exampleJSON"
      and parse = exampleParse and s = ?s and key = "str ''u1''" and n = 0
      and xs = "[userMessage (JStr (str ''hello''))]"
      and aiResponse = "[(str ''response'', JStr (str ''Hi'')), (str ''correction'', JStr (str ''Hello''))]",
      THEN conjunct2, THEN conjunct2, THEN conjunct1]
  note w2 = roleplay_parses_first_to_last [where t = "str ''} no {''" and parse = exampleParse
      and s = ?s and key = "str ''u1''" and n = 0, THEN conjunct1]
  have a: "resume exampleParse (AwaitRoleplay (str ''u1'') 0) (Text exampleReply) ?s =
     (Responded \<lparr>status = 200,
        body = JObj [(str ''roleplayResponse'',
                 JObj [(str ''response'', JStr (str ''Hi'')), (str ''correction'', JStr (str ''Hello''))])]\<rparr>,
      \<lparr>conversationHistory =
         [str ''u1'' \<mapsto> [userMessage (JStr (str ''hello'')),
                          JObj [(str ''role'', JStr (str ''ai'')), (str ''message'', JStr (str ''Hi''))]]],
       therapistHistory = Map.empty, modelCalls = 1\<rparr>)"
    using w1 first_to_last_exampleReply parse_exampleJSON own
    by (simp add: getProp_def)
  have b: "resume exampleParse (AwaitRoleplay (str ''u1'') 0) (Text (str ''} no {'')) ?s =
     (Responded \<lparr>status = 500,
        body = JObj [(str ''error'', JStr (str ''AI model error'')),
                     (str ''details'', JStr (str ''Invalid JSON response from AI''))]\<rparr>, ?s)"
    using w2 none by simp
  from a b show ?thesis by (rule conjI)
qed

subsection \<open>The user entry and the error branch\<close>





text \<open>
  With a reply that parses, the same order of events ends with 500 as well: the AI entry
  has no array to go to.
\<close>

lemma reset_during_call_good_reply:
  "events exampleParse (\<lambda>n. Text exampleReply)
     [Arrive Roleplay exampleRoleplay,
      Arrive ResetHistory [(str ''userId'', JStr (str ''u1''))],
      Settle 0] initialSystem =
   \<lparr>srv = \<lparr>conversationHistory = Map.empty, therapistHistory = Map.empty, modelCalls = 1\<rparr>,
    waiting = [],
    sent = [Responded \<lparr>status = 200,
              body = JObj [(str ''message'', JStr (str ''History reset for user: u1''))]\<rparr>,
            Responded \<lparr>status = 500,
              body = JObj [(str ''error'', JStr (str ''AI model error'')),
                           (str ''details'',
                            JStr (memberTypeError ''conversationHistory'' ''push'' Absent))]\<rparr>]\<rparr>"
  by (simp add: events_def initialSystem_def route_defs exampleRoleplay_def initialServer_def
      ok_def aiModelError_def regex_exampleReply parse_exampleJSON)

subsection \<open>Histories only grow\<close>





text \<open>
  Two requests of the same user in flight together: both user entries are stored as the
  requests arrive, and each AI entry as its call settles.
\<close>

lemma two_requests_in_flight:
  "conversationHistory
     (srv (events exampleParse (\<lambda>n. if n = 0 then Text exampleReply else Text (str ''{}''))
        [Arrive Roleplay exampleRoleplay,
         Arrive Roleplay [(str ''userId'', JStr (str ''u1'')), (str ''scenario'', JStr (str ''cafe'')),
                          (str ''message'', JStr (str ''bye''))],
         Settle 1, Settle 0] initialSystem))
     (str ''u1'') =
   Some [userMessage (JStr (str ''hello'')), userMessage (JStr (str ''bye'')),
         aiMessage JUndefined, aiMessage (JStr (str ''Hi''))]"
proof -
  have r: "regex_match (str ''{}'') = Some (str ''{}'')"
    by (simp add: str_def codeUnit_def lbrace_def rbrace_def)
  have p: "exampleParse (str ''{}'') = Inr []"
    by (simp add: exampleParse_def parseTable_def)
  show ?thesis
    by (simp add: events_def initialSystem_def route_defs exampleRoleplay_def initialServer_def
        regex_exampleReply parse_exampleJSON r p)
qed

end
